theory Spec2Isabelle
  imports Complex_Main
begin

section \<open>Telegram values used by the handlers\<close>

text \<open>
  The repository holds three versions of the bot. The last one (unnamed/part 000, with
  \<^verbatim>\<open>/pass\<close> and the flag \<^verbatim>\<open>HasPulledOnTurn\<close>) is modelled under the names of
  the source; the first (main.go) and the second (unnamed/part 001) follow below with
  the suffixes \<open>_v1\<close> and \<open>_v2\<close>.

  The handlers read three fields of \<^verbatim>\<open>telebot.User\<close> and the chat identifier of
  the incoming \<^verbatim>\<open>telebot.Message\<close>. Go's \<^verbatim>\<open>int\<close> and \<^verbatim>\<open>int64\<close> are modelled as
  \<^typ>\<open>int\<close>: in every reachable registry \<^verbatim>\<open>PullCount\<close> is at most 5 and
  \<^verbatim>\<open>CurrentPos\<close> at most 5 plus twice the length of the roster (shown below), so the
  wrap-around of the machine type at \<open>2^63\<close> is out of reach.
\<close>

record User =
  ID :: int
  FirstName :: string
  Username :: string

record Message =
  Chat :: int
  Sender :: User

function string_of_nat :: "nat \<Rightarrow> string" where
  "string_of_nat n =
     (if n < 10 then [''0123456789'' ! n]
      else string_of_nat (n div 10) @ [''0123456789'' ! (n mod 10)])"
  by pat_completeness auto
termination
  by (relation "measure (\<lambda>n. n)") auto

text \<open>The verb \<^verbatim>\<open>%d\<close> of \<^verbatim>\<open>fmt.Sprintf\<close>: decimal, with a minus sign below zero.\<close>

definition Sprintf_d :: "int \<Rightarrow> string" where
  "Sprintf_d i = (if i < 0 then CHR ''-'' # string_of_nat (nat (- i)) else string_of_nat (nat i))"

definition getPlayerID :: "User \<Rightarrow> string" where
  "getPlayerID sender =
     (if Username sender \<noteq> [] then Username sender
      else if FirstName sender \<noteq> [] then FirstName sender
      else ''player'' @ Sprintf_d (ID sender))"

section \<open>The game record and the registry\<close>

record Game =
  Players :: "string list"
  Bullet :: int
  CurrentPos :: int
  PullCount :: int
  IsActive :: bool
  Skips :: "string \<rightharpoonup> int"
  HasPulledOnTurn :: bool

text \<open>
  \<^verbatim>\<open>games\<close> is a \<^verbatim>\<open>map[int64]*Game\<close>. In the last version of the bot every stored
  pointer is the address of a fresh struct literal and entries leave the map through
  \<^verbatim>\<open>delete\<close>, so a key is either absent or bound to a game; each game is reachable
  through its own key only, and the in-place mutation of a handler is the update of that
  key. The mutex makes the handlers run one at a time.
\<close>

type_synonym registry = "int \<rightharpoonup> Game"

datatype panic = NilDereference | DivideByZero | IndexOutOfRange

text \<open>Reading a \<^verbatim>\<open>map[string]int\<close> at a missing key gives 0.\<close>

definition skips_at :: "(string \<rightharpoonup> int) \<Rightarrow> string \<Rightarrow> int" where
  "skips_at skips p = (case skips p of None \<Rightarrow> 0 | Some n \<Rightarrow> n)"

text \<open>Go's \<^verbatim>\<open>%\<close> truncates towards zero and panics on a zero divisor.\<close>

definition go_rem :: "int \<Rightarrow> int \<Rightarrow> panic + int" where
  "go_rem a b = (if b = 0 then Inl DivideByZero else Inr (sgn a * (\<bar>a\<bar> mod \<bar>b\<bar>)))"

definition go_index :: "'a list \<Rightarrow> int \<Rightarrow> panic + 'a" where
  "go_index xs i =
     (if 0 \<le> i \<and> i < int (length xs) then Inr (xs ! nat i) else Inl IndexOutOfRange)"

text \<open>\<^verbatim>\<open>game.Players[game.CurrentPos%len(game.Players)]\<close>\<close>

definition player_at :: "string list \<Rightarrow> int \<Rightarrow> panic + string" where
  "player_at players pos =
     (case go_rem pos (int (length players)) of
        Inl p \<Rightarrow> Inl p
      | Inr i \<Rightarrow> go_index players i)"

definition currentPlayer :: "Game \<Rightarrow> panic + string" where
  "currentPlayer game = player_at (Players game) (CurrentPos game)"

text \<open>
  \<^verbatim>\<open>rand.Intn(n)\<close> of \<^verbatim>\<open>math/rand\<close> returns a number in \<open>[0, n)\<close> for \<open>n > 0\<close>; the
  generator's raw output is a parameter of the model.
\<close>

definition rand_Intn :: "int \<Rightarrow> nat \<Rightarrow> int" where
  "rand_Intn n raw = int raw mod n"

section \<open>Replies and outcomes\<close>

text \<open>
  One constructor per text passed to \<^verbatim>\<open>bot.Send\<close>, carrying the arguments of its
  format string in their order:
  \<^item> \<open>AlreadyActive\<close>: "A game is already in progress!"
  \<^item> \<open>Created u\<close>: "@u started a game of Russian Roulette! ..."
  \<^item> \<open>NoActiveGame\<close>: "No active game! Use /create to create a new game."
  \<^item> \<open>DuplicatePlayer\<close>: "You're already in the game!"
  \<^item> \<open>Joined u ps\<close>: "@u joined the game! Current players: ps"
  \<^item> \<open>InsufficientPlayers\<close>: "Need at least 2 players to start!"
  \<^item> \<open>GameStarting\<close>, \<open>FirstUp p\<close>: "Game starting! ...", "First up: @p"
  \<^item> \<open>NotYourTurnPlay p\<close>: "It's not your turn! Waiting for @p to play."
  \<^item> \<open>NotYourTurnPull p\<close>: "It's not your turn! Waiting for @p to pull the trigger."
  \<^item> \<open>AlreadyActedThisTurn\<close>: "You've already pulled the trigger this turn! Use /pass to end your turn."
  \<^item> \<open>NoSkipsLeft\<close>: "You have no skips remaining! You must /pull!"
  \<^item> \<open>Skipped p n q\<close>: "@p skipped their turn! (n skip(s) remaining) Next up: @q"
  \<^item> \<open>MustPullFirst\<close>: "You must pull the trigger at least once before passing!"
  \<^item> \<open>Passed p q\<close>: "@p passed their turn. Next up: @q"
  \<^item> \<open>Bang u\<close>: "BANG! @u is dead! Game Over!"
  \<^item> \<open>Survived p c o n\<close>: "*click* @p survives! Chambers left: c Chance of next shot
    being fatal: o% Skips remaining: n ..."
  \<^item> \<open>Stopped\<close>: "Game stopped.", \<open>NoGameToStop\<close>: "No active game to stop!"
  \<^item> \<open>HelpText\<close>: the command list
  \<^item> \<open>NoActiveGameStatus\<close>: "No active game!"
  \<^item> \<open>StatusText ps p ns\<close>: "Current players: ps Waiting for: @p Skips remaining: ns"
  \<^item> \<open>NextUp p\<close>: "Next up: @p", sent on its own by the older versions
  \<^item> \<open>SurvivedNoSkips p c o\<close>, \<open>StatusPlayers ps p\<close>: the texts of \<open>Survived\<close> and
    \<open>StatusText\<close> of the first version, which has no skips

  The older versions quote other command names in some texts (\<^verbatim>\<open>/startroulette\<close>,
  \<^verbatim>\<open>/startgame\<close>); their replies use the constructor of the text with the same role.

  The odds are a \<^verbatim>\<open>float64\<close> printed with \<^verbatim>\<open>%.1f\<close>; the model computes them in
  \<^typ>\<open>real\<close>, without the rounding of the machine format. Calls of \<^verbatim>\<open>log.Printf\<close>
  are left out.
\<close>

datatype reply =
    AlreadyActive
  | Created string
  | NoActiveGame
  | DuplicatePlayer
  | Joined string "string list"
  | InsufficientPlayers
  | GameStarting
  | FirstUp string
  | NotYourTurnPlay string
  | NotYourTurnPull string
  | AlreadyActedThisTurn
  | NoSkipsLeft
  | Skipped string int string
  | MustPullFirst
  | Passed string string
  | Bang string
  | Survived string int real int
  | Stopped
  | NoGameToStop
  | HelpText
  | NoActiveGameStatus
  | StatusText "string list" string "(string \<times> int) list"
  | NextUp string
  | SurvivedNoSkips string int "real option"
  | StatusPlayers "string list" string

text \<open>
  A handler either returns after its sends, or panics; both leave a registry and the
  texts sent so far behind (a panic keeps the writes made before it, and the deferred
  unlock still runs). The type of the registry is a parameter: the older versions of
  the bot store pointers that may be nil.
\<close>

datatype 'r outcome = Panic panic 'r "reply list" | Sent 'r "reply list"

fun registry_of :: "'r outcome \<Rightarrow> 'r" where
  "registry_of (Panic p games rs) = games"
| "registry_of (Sent games rs) = games"

fun replies_of :: "'r outcome \<Rightarrow> reply list" where
  "replies_of (Panic p games rs) = rs"
| "replies_of (Sent games rs) = rs"

fun panic_of :: "'r outcome \<Rightarrow> panic option" where
  "panic_of (Panic p games rs) = Some p"
| "panic_of (Sent games rs) = None"

section \<open>The command handlers\<close>

text \<open>\<^verbatim>\<open>game, exists := games[m.Chat.ID]; exists && game.IsActive\<close>\<close>

definition exists_active :: "registry \<Rightarrow> int \<Rightarrow> bool" where
  "exists_active games c = (case games c of None \<Rightarrow> False | Some game \<Rightarrow> IsActive game)"

definition handle_create :: "registry \<Rightarrow> nat \<Rightarrow> Message \<Rightarrow> registry outcome" where
  "handle_create games raw m =
     (if exists_active games (Chat m) then Sent games [AlreadyActive]
      else
        let playerID = getPlayerID (Sender m) in
        Sent (games(Chat m \<mapsto>
                \<lparr>Players = [playerID], Bullet = rand_Intn 6 raw, CurrentPos = 0,
                 PullCount = 0, IsActive = True, Skips = [playerID \<mapsto> 2],
                 HasPulledOnTurn = False\<rparr>))
             [Created (Username (Sender m))])"

definition handle_join :: "registry \<Rightarrow> Message \<Rightarrow> registry outcome" where
  "handle_join games m =
     (if \<not> exists_active games (Chat m) then Sent games [NoActiveGame]
      else
        let game = the (games (Chat m)); playerID = getPlayerID (Sender m) in
        if playerID \<in> set (Players game) then Sent games [DuplicatePlayer]
        else
          let game' = game\<lparr>Players := Players game @ [playerID],
                            Skips := (Skips game)(playerID \<mapsto> 2)\<rparr>
          in Sent (games(Chat m \<mapsto> game')) [Joined (Username (Sender m)) (Players game')])"

text \<open>
  \<^verbatim>\<open>/start\<close> reads the game and sends two texts; it writes no field.
  \<^verbatim>\<open>game.Players[0]\<close> is read after the length check, so it is in range.
\<close>

definition handle_start :: "registry \<Rightarrow> Message \<Rightarrow> registry outcome" where
  "handle_start games m =
     (if \<not> exists_active games (Chat m) then Sent games [NoActiveGame]
      else
        let game = the (games (Chat m)) in
        if length (Players game) < 2 then Sent games [InsufficientPlayers]
        else Sent games [GameStarting, FirstUp (Players game ! 0)])"

definition handle_skip :: "registry \<Rightarrow> Message \<Rightarrow> registry outcome" where
  "handle_skip games m =
     (if \<not> exists_active games (Chat m) then Sent games [NoActiveGame]
      else
        let game = the (games (Chat m)) in
        case currentPlayer game of
          Inl p \<Rightarrow> Panic p games []
        | Inr cur \<Rightarrow>
            if getPlayerID (Sender m) \<noteq> cur then Sent games [NotYourTurnPlay cur]
            else if HasPulledOnTurn game then Sent games [AlreadyActedThisTurn]
            else if skips_at (Skips game) cur \<le> 0 then Sent games [NoSkipsLeft]
            else
              let game' = game\<lparr>Skips := (Skips game)(cur \<mapsto> skips_at (Skips game) cur - 1),
                                CurrentPos := CurrentPos game + 1,
                                HasPulledOnTurn := False\<rparr>;
                  games' = games(Chat m \<mapsto> game')
              in (case currentPlayer game' of
                    Inl p \<Rightarrow> Panic p games' []
                  | Inr nextPlayer \<Rightarrow>
                      Sent games' [Skipped cur (skips_at (Skips game') cur) nextPlayer]))"

definition handle_pass :: "registry \<Rightarrow> Message \<Rightarrow> registry outcome" where
  "handle_pass games m =
     (if \<not> exists_active games (Chat m) then Sent games [NoActiveGame]
      else
        let game = the (games (Chat m)) in
        case currentPlayer game of
          Inl p \<Rightarrow> Panic p games []
        | Inr cur \<Rightarrow>
            if getPlayerID (Sender m) \<noteq> cur then Sent games [NotYourTurnPlay cur]
            else if \<not> HasPulledOnTurn game then Sent games [MustPullFirst]
            else
              let game' = game\<lparr>CurrentPos := CurrentPos game + 1,
                                HasPulledOnTurn := False\<rparr>;
                  games' = games(Chat m \<mapsto> game')
              in (case currentPlayer game' of
                    Inl p \<Rightarrow> Panic p games' []
                  | Inr nextPlayer \<Rightarrow> Sent games' [Passed cur nextPlayer]))"

text \<open>
  The three ways a trigger pull by the player on turn resolves, in the order of the
  handler's tests: the bullet is at \<^verbatim>\<open>PullCount\<close>; or no chamber would remain
  (\<^verbatim>\<open>6 - game.PullCount - 1 <= 0\<close>); or the player survives.
\<close>

datatype pull_branch = BulletMatch | ChamberExhausted | Survival

definition remainingChambers :: "Game \<Rightarrow> int" where
  "remainingChambers game = 6 - PullCount game - 1"

definition pull_branch_of :: "Game \<Rightarrow> pull_branch" where
  "pull_branch_of game =
     (if PullCount game = Bullet game then BulletMatch
      else if remainingChambers game \<le> 0 then ChamberExhausted
      else Survival)"

definition oddsPercentage :: "Game \<Rightarrow> real" where
  "oddsPercentage game = (1 / real_of_int (remainingChambers game)) * 100"

definition handle_pull :: "registry \<Rightarrow> Message \<Rightarrow> registry outcome" where
  "handle_pull games m =
     (if \<not> exists_active games (Chat m) then Sent games [NoActiveGame]
      else
        let game = the (games (Chat m)) in
        case currentPlayer game of
          Inl p \<Rightarrow> Panic p games []
        | Inr cur \<Rightarrow>
            if getPlayerID (Sender m) \<noteq> cur then Sent games [NotYourTurnPull cur]
            else
              (case pull_branch_of game of
                 BulletMatch \<Rightarrow> Sent (games(Chat m := None)) [Bang (Username (Sender m))]
               | ChamberExhausted \<Rightarrow>
                   Sent (games(Chat m := None)) [Bang (Username (Sender m))]
               | Survival \<Rightarrow>
                   (let game' = game\<lparr>HasPulledOnTurn := True,
                                      PullCount := PullCount game + 1\<rparr>
                    in Sent (games(Chat m \<mapsto> game'))
                         [Survived (getPlayerID (Sender m)) (remainingChambers game)
                            (oddsPercentage game) (skips_at (Skips game') cur)])))"

definition handle_stop :: "registry \<Rightarrow> Message \<Rightarrow> registry outcome" where
  "handle_stop games m =
     (if exists_active games (Chat m) then Sent (games(Chat m := None)) [Stopped]
      else Sent games [NoGameToStop])"

definition handle_help :: "registry \<Rightarrow> Message \<Rightarrow> registry outcome" where
  "handle_help games m = Sent games [HelpText]"

definition handle_status :: "registry \<Rightarrow> Message \<Rightarrow> registry outcome" where
  "handle_status games m =
     (if \<not> exists_active games (Chat m) then Sent games [NoActiveGameStatus]
      else
        let game = the (games (Chat m)) in
        case currentPlayer game of
          Inl p \<Rightarrow> Panic p games []
        | Inr cur \<Rightarrow>
            Sent games [StatusText (Players game) cur
                          (map (\<lambda>player. (player, skips_at (Skips game) player)) (Players game))])"

section \<open>Runs of the bot\<close>

datatype command =
  Create nat | Join | Start | Skip | Pass | Pull | Stop | Help | Status

fun handle :: "registry \<Rightarrow> command \<Rightarrow> Message \<Rightarrow> registry outcome" where
  "handle games (Create raw) m = handle_create games raw m"
| "handle games Join m = handle_join games m"
| "handle games Start m = handle_start games m"
| "handle games Skip m = handle_skip games m"
| "handle games Pass m = handle_pass games m"
| "handle games Pull m = handle_pull games m"
| "handle games Stop m = handle_stop games m"
| "handle games Help m = handle_help games m"
| "handle games Status m = handle_status games m"

text \<open>The registry after a list of commands, handled one after the other.\<close>

fun run :: "registry \<Rightarrow> (command \<times> Message) list \<Rightarrow> registry" where
  "run games [] = games"
| "run games ((cmd, m) # evs) = run (registry_of (handle games cmd m)) evs"

text \<open>The registries the bot can be in: it starts with an empty map.\<close>

inductive reachable :: "registry \<Rightarrow> bool" where
  init: "reachable Map.empty"
| step: "reachable games \<Longrightarrow> reachable (registry_of (handle games cmd m))"

text \<open>Chat \<open>c\<close> holds a game before every command of the list and after the last.\<close>

fun alive :: "int \<Rightarrow> registry \<Rightarrow> (command \<times> Message) list \<Rightarrow> bool" where
  "alive c games [] = (games c \<noteq> None)"
| "alive c games ((cmd, m) # evs) =
     (games c \<noteq> None \<and> alive c (registry_of (handle games cmd m)) evs)"

text \<open>What every stored game satisfies, as shown below for the reachable registries.\<close>

definition game_ok :: "Game \<Rightarrow> bool" where
  "game_ok game \<longleftrightarrow>
     IsActive game \<and> Players game \<noteq> [] \<and> distinct (Players game) \<and> 0 \<le> CurrentPos game \<and>
     0 \<le> PullCount game \<and> PullCount game \<le> Bullet game \<and> Bullet game < 6 \<and>
     list_all (\<lambda>p. 0 \<le> skips_at (Skips game) p \<and> skips_at (Skips game) p \<le> 2) (Players game)"

definition registry_ok :: "registry \<Rightarrow> bool" where
  "registry_ok games \<longleftrightarrow> (\<forall>c game. games c = Some game \<longrightarrow> game_ok game)"

text \<open>
  The skips handed out and used up, and the bound they give on the turn counter: every
  pass needs a pull that was not followed by a pass yet, every skip uses one of the two
  skips of a player of the roster.
\<close>

definition skips_used :: "Game \<Rightarrow> int" where
  "skips_used game = (\<Sum>p\<leftarrow>Players game. 2 - skips_at (Skips game) p)"

definition turn_ok :: "Game \<Rightarrow> bool" where
  "turn_ok game \<longleftrightarrow>
     CurrentPos game + (if HasPulledOnTurn game then 1 else 0) \<le> PullCount game + skips_used game"

definition registry_turn_ok :: "registry \<Rightarrow> bool" where
  "registry_turn_ok games \<longleftrightarrow> (\<forall>c game. games c = Some game \<longrightarrow> game_ok game \<and> turn_ok game)"

section \<open>The first version of the bot (main.go)\<close>

text \<open>
  The first version has no skips and no pull counter: the turn counter
  \<^verbatim>\<open>CurrentPos\<close> is compared with the bullet. It ends a game by
  \<^verbatim>\<open>games[m.Chat.ID] = nil\<close>, so the map can hold a key bound to a nil pointer:
  the registry maps a chat to \<open>None\<close> (the nil pointer) or to \<open>Some game\<close>.
\<close>

record Game_v1 =
  Players_v1 :: "string list"
  Bullet_v1 :: int
  CurrentPos_v1 :: int
  IsActive_v1 :: bool

type_synonym registry_v1 = "int \<rightharpoonup> Game_v1 option"

text \<open>
  \<^verbatim>\<open>game, exists := games[m.Chat.ID]\<close> followed by the test
  \<^verbatim>\<open>exists && game.IsActive\<close> (or its negation): the read of \<^verbatim>\<open>game.IsActive\<close>
  happens when the key is present, and panics when the pointer is nil. The result is
  the game when the test holds.
\<close>

definition active_game_v1 :: "registry_v1 \<Rightarrow> int \<Rightarrow> panic + Game_v1 option" where
  "active_game_v1 games c =
     (case games c of
        None \<Rightarrow> Inr None
      | Some None \<Rightarrow> Inl NilDereference
      | Some (Some game) \<Rightarrow> Inr (if IsActive_v1 game then Some game else None))"

definition handle_startroulette_v1 ::
    "registry_v1 \<Rightarrow> nat \<Rightarrow> Message \<Rightarrow> registry_v1 outcome" where
  "handle_startroulette_v1 games raw m =
     (case active_game_v1 games (Chat m) of
        Inl p \<Rightarrow> Panic p games []
      | Inr (Some game) \<Rightarrow> Sent games [AlreadyActive]
      | Inr None \<Rightarrow>
          (let playerID = getPlayerID (Sender m) in
           Sent (games(Chat m \<mapsto>
                   Some \<lparr>Players_v1 = [playerID], Bullet_v1 = rand_Intn 6 raw,
                         CurrentPos_v1 = 0, IsActive_v1 = True\<rparr>))
                [Created (Username (Sender m))]))"

definition handle_join_v1 :: "registry_v1 \<Rightarrow> Message \<Rightarrow> registry_v1 outcome" where
  "handle_join_v1 games m =
     (case active_game_v1 games (Chat m) of
        Inl p \<Rightarrow> Panic p games []
      | Inr None \<Rightarrow> Sent games [NoActiveGame]
      | Inr (Some game) \<Rightarrow>
          (let playerID = getPlayerID (Sender m) in
           if playerID \<in> set (Players_v1 game) then Sent games [DuplicatePlayer]
           else
             let game' = game\<lparr>Players_v1 := Players_v1 game @ [playerID]\<rparr>
             in Sent (games(Chat m \<mapsto> Some game'))
                  [Joined (Username (Sender m)) (Players_v1 game')]))"

definition handle_startgame_v1 :: "registry_v1 \<Rightarrow> Message \<Rightarrow> registry_v1 outcome" where
  "handle_startgame_v1 games m =
     (case active_game_v1 games (Chat m) of
        Inl p \<Rightarrow> Panic p games []
      | Inr None \<Rightarrow> Sent games [NoActiveGame]
      | Inr (Some game) \<Rightarrow>
          if length (Players_v1 game) < 2 then Sent games [InsufficientPlayers]
          else Sent games [GameStarting, FirstUp (Players_v1 game ! 0)])"

text \<open>
  \<^verbatim>\<open>(1.0 / float64(remainingChambers)) * 100\<close> without a guard on the divisor:
  at 0 the \<^verbatim>\<open>float64\<close> division gives \<^verbatim>\<open>+Inf\<close>, here \<open>None\<close>.
\<close>

definition oddsPercentage_v1 :: "int \<Rightarrow> real option" where
  "oddsPercentage_v1 r = (if r = 0 then None else Some ((1 / real_of_int r) * 100))"

definition handle_pull_v1 :: "registry_v1 \<Rightarrow> Message \<Rightarrow> registry_v1 outcome" where
  "handle_pull_v1 games m =
     (case active_game_v1 games (Chat m) of
        Inl p \<Rightarrow> Panic p games []
      | Inr None \<Rightarrow> Sent games [NoActiveGame]
      | Inr (Some game) \<Rightarrow>
          (case player_at (Players_v1 game) (CurrentPos_v1 game) of
             Inl p \<Rightarrow> Panic p games []
           | Inr cur \<Rightarrow>
               if Username (Sender m) \<noteq> cur then Sent games [NotYourTurnPull cur]
               else if CurrentPos_v1 game = Bullet_v1 game
               then Sent (games(Chat m \<mapsto> None)) [Bang (Username (Sender m))]
               else
                 let r = 6 - (CurrentPos_v1 game + 1);
                     survivalMsg = SurvivedNoSkips (getPlayerID (Sender m)) r
                                     (oddsPercentage_v1 r);
                     game' = game\<lparr>CurrentPos_v1 := CurrentPos_v1 game + 1\<rparr>;
                     games' = games(Chat m \<mapsto> Some game')
                 in (case player_at (Players_v1 game') (CurrentPos_v1 game') of
                       Inl p \<Rightarrow> Panic p games' [survivalMsg]
                     | Inr nextPlayer \<Rightarrow> Sent games' [survivalMsg, NextUp nextPlayer])))"

definition handle_stopgame_v1 :: "registry_v1 \<Rightarrow> Message \<Rightarrow> registry_v1 outcome" where
  "handle_stopgame_v1 games m =
     (case active_game_v1 games (Chat m) of
        Inl p \<Rightarrow> Panic p games []
      | Inr (Some game) \<Rightarrow> Sent (games(Chat m \<mapsto> None)) [Stopped]
      | Inr None \<Rightarrow> Sent games [NoGameToStop])"

definition handle_help_v1 :: "registry_v1 \<Rightarrow> Message \<Rightarrow> registry_v1 outcome" where
  "handle_help_v1 games m = Sent games [HelpText]"

definition handle_status_v1 :: "registry_v1 \<Rightarrow> Message \<Rightarrow> registry_v1 outcome" where
  "handle_status_v1 games m =
     (case active_game_v1 games (Chat m) of
        Inl p \<Rightarrow> Panic p games []
      | Inr None \<Rightarrow> Sent games [NoActiveGameStatus]
      | Inr (Some game) \<Rightarrow>
          (case player_at (Players_v1 game) (CurrentPos_v1 game) of
             Inl p \<Rightarrow> Panic p games []
           | Inr cur \<Rightarrow> Sent games [StatusPlayers (Players_v1 game) cur]))"

datatype command_v1 =
  Startroulette nat | Join_v1 | Startgame | Pull_v1 | Stopgame | Help_v1 | Status_v1

fun handle_v1 :: "registry_v1 \<Rightarrow> command_v1 \<Rightarrow> Message \<Rightarrow> registry_v1 outcome" where
  "handle_v1 games (Startroulette raw) m = handle_startroulette_v1 games raw m"
| "handle_v1 games Join_v1 m = handle_join_v1 games m"
| "handle_v1 games Startgame m = handle_startgame_v1 games m"
| "handle_v1 games Pull_v1 m = handle_pull_v1 games m"
| "handle_v1 games Stopgame m = handle_stopgame_v1 games m"
| "handle_v1 games Help_v1 m = handle_help_v1 games m"
| "handle_v1 games Status_v1 m = handle_status_v1 games m"

fun run_v1 :: "registry_v1 \<Rightarrow> (command_v1 \<times> Message) list \<Rightarrow> registry_v1" where
  "run_v1 games [] = games"
| "run_v1 games ((cmd, m) # evs) = run_v1 (registry_of (handle_v1 games cmd m)) evs"

section \<open>The second version of the bot (unnamed/part 001)\<close>

text \<open>
  The second version adds the pull counter and the skips; a surviving pull still ends
  the turn. Like the first it ends a game by storing a nil pointer.
\<close>

record Game_v2 =
  Players_v2 :: "string list"
  Bullet_v2 :: int
  CurrentPos_v2 :: int
  PullCount_v2 :: int
  IsActive_v2 :: bool
  Skips_v2 :: "string \<rightharpoonup> int"

type_synonym registry_v2 = "int \<rightharpoonup> Game_v2 option"

definition active_game_v2 :: "registry_v2 \<Rightarrow> int \<Rightarrow> panic + Game_v2 option" where
  "active_game_v2 games c =
     (case games c of
        None \<Rightarrow> Inr None
      | Some None \<Rightarrow> Inl NilDereference
      | Some (Some game) \<Rightarrow> Inr (if IsActive_v2 game then Some game else None))"

definition handle_create_v2 ::
    "registry_v2 \<Rightarrow> nat \<Rightarrow> Message \<Rightarrow> registry_v2 outcome" where
  "handle_create_v2 games raw m =
     (case active_game_v2 games (Chat m) of
        Inl p \<Rightarrow> Panic p games []
      | Inr (Some game) \<Rightarrow> Sent games [AlreadyActive]
      | Inr None \<Rightarrow>
          (let playerID = getPlayerID (Sender m) in
           Sent (games(Chat m \<mapsto>
                   Some \<lparr>Players_v2 = [playerID], Bullet_v2 = rand_Intn 6 raw,
                         CurrentPos_v2 = 0, PullCount_v2 = 0, IsActive_v2 = True,
                         Skips_v2 = [playerID \<mapsto> 2]\<rparr>))
                [Created (Username (Sender m))]))"

definition handle_join_v2 :: "registry_v2 \<Rightarrow> Message \<Rightarrow> registry_v2 outcome" where
  "handle_join_v2 games m =
     (case active_game_v2 games (Chat m) of
        Inl p \<Rightarrow> Panic p games []
      | Inr None \<Rightarrow> Sent games [NoActiveGame]
      | Inr (Some game) \<Rightarrow>
          (let playerID = getPlayerID (Sender m) in
           if playerID \<in> set (Players_v2 game) then Sent games [DuplicatePlayer]
           else
             let game' = game\<lparr>Players_v2 := Players_v2 game @ [playerID],
                               Skips_v2 := (Skips_v2 game)(playerID \<mapsto> 2)\<rparr>
             in Sent (games(Chat m \<mapsto> Some game'))
                  [Joined (Username (Sender m)) (Players_v2 game')]))"

definition handle_start_v2 :: "registry_v2 \<Rightarrow> Message \<Rightarrow> registry_v2 outcome" where
  "handle_start_v2 games m =
     (case active_game_v2 games (Chat m) of
        Inl p \<Rightarrow> Panic p games []
      | Inr None \<Rightarrow> Sent games [NoActiveGame]
      | Inr (Some game) \<Rightarrow>
          if length (Players_v2 game) < 2 then Sent games [InsufficientPlayers]
          else Sent games [GameStarting, FirstUp (Players_v2 game ! 0)])"

definition handle_skip_v2 :: "registry_v2 \<Rightarrow> Message \<Rightarrow> registry_v2 outcome" where
  "handle_skip_v2 games m =
     (case active_game_v2 games (Chat m) of
        Inl p \<Rightarrow> Panic p games []
      | Inr None \<Rightarrow> Sent games [NoActiveGame]
      | Inr (Some game) \<Rightarrow>
          (case player_at (Players_v2 game) (CurrentPos_v2 game) of
             Inl p \<Rightarrow> Panic p games []
           | Inr cur \<Rightarrow>
               if getPlayerID (Sender m) \<noteq> cur then Sent games [NotYourTurnPlay cur]
               else if skips_at (Skips_v2 game) cur \<le> 0 then Sent games [NoSkipsLeft]
               else
                 let game' = game\<lparr>Skips_v2 := (Skips_v2 game)
                                     (cur \<mapsto> skips_at (Skips_v2 game) cur - 1),
                                   CurrentPos_v2 := CurrentPos_v2 game + 1\<rparr>;
                     games' = games(Chat m \<mapsto> Some game')
                 in (case player_at (Players_v2 game') (CurrentPos_v2 game') of
                       Inl p \<Rightarrow> Panic p games' []
                     | Inr nextPlayer \<Rightarrow>
                         Sent games'
                           [Skipped cur (skips_at (Skips_v2 game') cur) nextPlayer])))"

definition handle_pull_v2 :: "registry_v2 \<Rightarrow> Message \<Rightarrow> registry_v2 outcome" where
  "handle_pull_v2 games m =
     (case active_game_v2 games (Chat m) of
        Inl p \<Rightarrow> Panic p games []
      | Inr None \<Rightarrow> Sent games [NoActiveGame]
      | Inr (Some game) \<Rightarrow>
          (case player_at (Players_v2 game) (CurrentPos_v2 game) of
             Inl p \<Rightarrow> Panic p games []
           | Inr cur \<Rightarrow>
               if getPlayerID (Sender m) \<noteq> cur then Sent games [NotYourTurnPull cur]
               else if PullCount_v2 game = Bullet_v2 game
               then Sent (games(Chat m \<mapsto> None)) [Bang (Username (Sender m))]
               else
                 let r = 6 - PullCount_v2 game - 1 in
                 if r \<le> 0
                 then Sent (games(Chat m \<mapsto> None)) [Bang (Username (Sender m))]
                 else
                   let survivalMsg = Survived (getPlayerID (Sender m)) r
                                       ((1 / real_of_int r) * 100)
                                       (skips_at (Skips_v2 game) cur);
                       game' = game\<lparr>PullCount_v2 := PullCount_v2 game + 1,
                                     CurrentPos_v2 := CurrentPos_v2 game + 1\<rparr>;
                       games' = games(Chat m \<mapsto> Some game')
                   in (case player_at (Players_v2 game') (CurrentPos_v2 game') of
                         Inl p \<Rightarrow> Panic p games' [survivalMsg]
                       | Inr nextPlayer \<Rightarrow> Sent games' [survivalMsg, NextUp nextPlayer])))"

definition handle_stop_v2 :: "registry_v2 \<Rightarrow> Message \<Rightarrow> registry_v2 outcome" where
  "handle_stop_v2 games m =
     (case active_game_v2 games (Chat m) of
        Inl p \<Rightarrow> Panic p games []
      | Inr (Some game) \<Rightarrow> Sent (games(Chat m \<mapsto> None)) [Stopped]
      | Inr None \<Rightarrow> Sent games [NoGameToStop])"

definition handle_help_v2 :: "registry_v2 \<Rightarrow> Message \<Rightarrow> registry_v2 outcome" where
  "handle_help_v2 games m = Sent games [HelpText]"

definition handle_status_v2 :: "registry_v2 \<Rightarrow> Message \<Rightarrow> registry_v2 outcome" where
  "handle_status_v2 games m =
     (case active_game_v2 games (Chat m) of
        Inl p \<Rightarrow> Panic p games []
      | Inr None \<Rightarrow> Sent games [NoActiveGameStatus]
      | Inr (Some game) \<Rightarrow>
          (case player_at (Players_v2 game) (CurrentPos_v2 game) of
             Inl p \<Rightarrow> Panic p games []
           | Inr cur \<Rightarrow>
               Sent games [StatusText (Players_v2 game) cur
                             (map (\<lambda>player. (player, skips_at (Skips_v2 game) player))
                                (Players_v2 game))]))"

datatype command_v2 =
  Create_v2 nat | Join_v2 | Start_v2 | Skip_v2 | Pull_v2 | Stop_v2 | Help_v2 | Status_v2

fun handle_v2 :: "registry_v2 \<Rightarrow> command_v2 \<Rightarrow> Message \<Rightarrow> registry_v2 outcome" where
  "handle_v2 games (Create_v2 raw) m = handle_create_v2 games raw m"
| "handle_v2 games Join_v2 m = handle_join_v2 games m"
| "handle_v2 games Start_v2 m = handle_start_v2 games m"
| "handle_v2 games Skip_v2 m = handle_skip_v2 games m"
| "handle_v2 games Pull_v2 m = handle_pull_v2 games m"
| "handle_v2 games Stop_v2 m = handle_stop_v2 games m"
| "handle_v2 games Help_v2 m = handle_help_v2 games m"
| "handle_v2 games Status_v2 m = handle_status_v2 games m"

fun run_v2 :: "registry_v2 \<Rightarrow> (command_v2 \<times> Message) list \<Rightarrow> registry_v2" where
  "run_v2 games [] = games"
| "run_v2 games ((cmd, m) # evs) = run_v2 (registry_of (handle_v2 games cmd m)) evs"

section \<open>Sample senders\<close>

text \<open>
  Three users writing in chat 1: one with a username, one with a first name only, one
  with neither.
\<close>

definition alice :: Message where
  "alice = \<lparr>Chat = 1, Sender = \<lparr>ID = 7, FirstName = ''Alice'', Username = ''alice''\<rparr>\<rparr>"

definition bob :: Message where
  "bob = \<lparr>Chat = 1, Sender = \<lparr>ID = 8, FirstName = ''Bob'', Username = []\<rparr>\<rparr>"

definition anon :: Message where
  "anon = \<lparr>Chat = 1, Sender = \<lparr>ID = 42, FirstName = [], Username = []\<rparr>\<rparr>"

text \<open>
  Five states of a game in chat 1, each the result of a run from the empty registry
  (shown below): after \<^verbatim>\<open>/create\<close> by alice with bullet 3; after bob joined,
  \<^verbatim>\<open>/start\<close> and one pull by alice; after alice alone skipped twice; after five
  pulls with the bullet in the last chamber; and after \<^verbatim>\<open>/create\<close> by bob with
  bullet 0.
\<close>

definition newgame :: Game where
  "newgame = \<lparr>Players = [''alice''], Bullet = 3, CurrentPos = 0, PullCount = 0,
              IsActive = True, Skips = [''alice'' \<mapsto> 2], HasPulledOnTurn = False\<rparr>"

definition midgame :: Game where
  "midgame = \<lparr>Players = [''alice'', ''Bob''], Bullet = 3, CurrentPos = 0, PullCount = 1,
              IsActive = True, Skips = [''alice'' \<mapsto> 2, ''Bob'' \<mapsto> 2],
              HasPulledOnTurn = True\<rparr>"

definition spentgame :: Game where
  "spentgame = \<lparr>Players = [''alice''], Bullet = 3, CurrentPos = 2, PullCount = 0,
              IsActive = True, Skips = [''alice'' \<mapsto> 0], HasPulledOnTurn = False\<rparr>"

definition lastgame :: Game where
  "lastgame = \<lparr>Players = [''alice''], Bullet = 5, CurrentPos = 0, PullCount = 5,
               IsActive = True, Skips = [''alice'' \<mapsto> 2], HasPulledOnTurn = True\<rparr>"

definition firstgame :: Game where
  "firstgame = \<lparr>Players = [''Bob''], Bullet = 0, CurrentPos = 0, PullCount = 0,
                IsActive = True, Skips = [''Bob'' \<mapsto> 2], HasPulledOnTurn = False\<rparr>"

section \<open>Unfolding the model on concrete inputs\<close>

lemmas handler_defs =
  handle_create_def handle_join_def handle_start_def handle_skip_def handle_pass_def
  handle_pull_def handle_stop_def handle_help_def handle_status_def exists_active_def
  currentPlayer_def player_at_def go_rem_def go_index_def getPlayerID_def rand_Intn_def
  skips_at_def pull_branch_of_def remainingChambers_def oddsPercentage_def Let_def

lemmas sender_defs = alice_def bob_def anon_def

lemmas handler_v1_defs =
  handle_startroulette_v1_def handle_join_v1_def handle_startgame_v1_def handle_pull_v1_def
  handle_stopgame_v1_def handle_help_v1_def handle_status_v1_def active_game_v1_def
  oddsPercentage_v1_def

lemmas handler_v2_defs =
  handle_create_v2_def handle_join_v2_def handle_start_v2_def handle_skip_v2_def
  handle_pull_v2_def handle_stop_v2_def handle_help_v2_def handle_status_v2_def
  active_game_v2_def

lemma newgame_run: "run Map.empty [(Create 3, alice)] = [1 \<mapsto> newgame]"
  by (simp add: handler_defs sender_defs newgame_def)

lemma midgame_run:
  "run Map.empty [(Create 3, alice), (Join, bob), (Start, alice), (Pull, alice)] =
     [1 \<mapsto> midgame]"
  by (simp add: handler_defs sender_defs midgame_def)

lemma spentgame_run:
  "run Map.empty [(Create 3, alice), (Skip, alice), (Skip, alice)] = [1 \<mapsto> spentgame]"
  by (simp add: handler_defs sender_defs spentgame_def)

lemma lastgame_run:
  "run Map.empty [(Create 5, alice), (Pull, alice), (Pull, alice), (Pull, alice),
     (Pull, alice), (Pull, alice)] = [1 \<mapsto> lastgame]"
  by (simp add: handler_defs sender_defs lastgame_def)

lemma newgame_to_midgame:
  "run [1 \<mapsto> newgame] [(Join, bob), (Start, alice), (Pull, alice)] = [1 \<mapsto> midgame]"
  by (simp add: handler_defs sender_defs midgame_def newgame_def)

lemma newgame_alive:
  "alive 1 [1 \<mapsto> newgame] [(Join, bob), (Start, alice), (Pull, alice)]"
  by (simp add: handler_defs sender_defs newgame_def)

section \<open>The player on turn\<close>

lemma go_rem_nonneg: "0 \<le> a \<Longrightarrow> 0 < b \<Longrightarrow> go_rem a b = Inr (a mod b)"
  by (simp add: go_rem_def sgn_if)

lemma player_at_in_range:
  assumes "players \<noteq> []" and "0 \<le> pos"
  shows "player_at players pos = Inr (players ! nat (pos mod int (length players)))"
proof -
  have len: "0 < int (length players)" using assms(1) by simp
  have "go_rem pos (int (length players)) = Inr (pos mod int (length players))"
    using assms(2) len by (rule go_rem_nonneg)
  moreover have "0 \<le> pos mod int (length players)"
    using len by simp
  moreover have "pos mod int (length players) < int (length players)"
    using len by simp
  ultimately show ?thesis by (simp add: player_at_def go_index_def)
qed

lemma player_at_member: "player_at players pos = Inr p \<Longrightarrow> p \<in> set players"
  by (auto simp: player_at_def go_index_def split: sum.splits if_splits)

lemma currentPlayer_in_range:
  "Players game \<noteq> [] \<Longrightarrow> 0 \<le> CurrentPos game \<Longrightarrow>
   currentPlayer game =
     Inr (Players game ! nat (CurrentPos game mod int (length (Players game))))"
  by (simp add: currentPlayer_def player_at_in_range)

lemma getPlayerID_nonempty: "getPlayerID u \<noteq> []"
  by (simp add: getPlayerID_def)

lemma newgame_current: "currentPlayer newgame = Inr (getPlayerID (Sender alice))"
  by (simp add: newgame_def alice_def handler_defs)

lemma midgame_current: "currentPlayer midgame = Inr (getPlayerID (Sender alice))"
  by (simp add: midgame_def alice_def handler_defs)

lemma spentgame_current: "currentPlayer spentgame = Inr (getPlayerID (Sender alice))"
  by (simp add: spentgame_def alice_def handler_defs)

section \<open>Every reachable registry is well formed\<close>

lemma rand_Intn_6: "0 \<le> rand_Intn 6 raw \<and> rand_Intn 6 raw < 6"
  by (simp add: rand_Intn_def)

lemma exists_active_Some:
  "exists_active games c \<Longrightarrow> \<exists>game. games c = Some game \<and> IsActive game"
  by (auto simp: exists_active_def split: option.splits)

lemma registry_ok_upd:
  "registry_ok games \<Longrightarrow> game_ok game \<Longrightarrow> registry_ok (games(c \<mapsto> game))"
  by (simp add: registry_ok_def)

lemma registry_ok_del: "registry_ok games \<Longrightarrow> registry_ok (games(c := None))"
  by (simp add: registry_ok_def)

lemma create_ok: "registry_ok games \<Longrightarrow> registry_ok (registry_of (handle_create games raw m))"
  using rand_Intn_6 [of raw]
  by (simp add: handle_create_def Let_def registry_ok_upd game_ok_def skips_at_def)

lemma join_game_ok:
  assumes "game_ok game" and "p \<notin> set (Players game)"
  shows "game_ok (game\<lparr>Players := Players game @ [p], Skips := (Skips game)(p \<mapsto> 2)\<rparr>)"
  using assms by (auto simp: game_ok_def skips_at_def list_all_iff)

lemma join_ok:
  assumes "registry_ok games"
  shows "registry_ok (registry_of (handle_join games m))"
proof (cases "exists_active games (Chat m)")
  case False
  then show ?thesis using assms by (simp add: handle_join_def)
next
  case True
  then obtain game where g: "games (Chat m) = Some game"
    by (auto dest: exists_active_Some)
  with assms have "game_ok game" by (simp add: registry_ok_def)
  then show ?thesis
    using assms g True by (simp add: handle_join_def Let_def registry_ok_upd join_game_ok)
qed

lemma start_same: "registry_of (handle_start games m) = games"
  by (simp add: handle_start_def Let_def)

lemma skip_game_ok:
  assumes "game_ok game" and "0 < skips_at (Skips game) cur"
  shows "game_ok (game\<lparr>Skips := (Skips game)(cur \<mapsto> skips_at (Skips game) cur - 1),
                        CurrentPos := CurrentPos game + 1, HasPulledOnTurn := False\<rparr>)"
proof -
  have "skips_at (Skips game) cur \<le> 2 \<or> cur \<notin> set (Players game)"
    using assms(1) by (auto simp: game_ok_def list_all_iff)
  then show ?thesis
    using assms by (auto simp: game_ok_def list_all_iff skips_at_def)
qed

lemma skip_ok:
  assumes "registry_ok games"
  shows "registry_ok (registry_of (handle_skip games m))"
proof (cases "exists_active games (Chat m)")
  case False
  then show ?thesis using assms by (simp add: handle_skip_def)
next
  case True
  then obtain game where g: "games (Chat m) = Some game"
    by (auto dest: exists_active_Some)
  with assms have "game_ok game" by (simp add: registry_ok_def)
  then show ?thesis
    using assms g True
    by (auto simp: handle_skip_def Let_def split: sum.splits
        intro!: registry_ok_upd skip_game_ok)
qed

lemma pass_game_ok:
  "game_ok game \<Longrightarrow>
   game_ok (game\<lparr>CurrentPos := CurrentPos game + 1, HasPulledOnTurn := False\<rparr>)"
  by (simp add: game_ok_def)

lemma pass_ok:
  assumes "registry_ok games"
  shows "registry_ok (registry_of (handle_pass games m))"
proof (cases "exists_active games (Chat m)")
  case False
  then show ?thesis using assms by (simp add: handle_pass_def)
next
  case True
  then obtain game where g: "games (Chat m) = Some game"
    by (auto dest: exists_active_Some)
  with assms have "game_ok game" by (simp add: registry_ok_def)
  then show ?thesis
    using assms g True
    by (auto simp: handle_pass_def Let_def split: sum.splits
        intro!: registry_ok_upd pass_game_ok)
qed

lemma pull_game_ok:
  assumes "game_ok game" and "pull_branch_of game = Survival"
  shows "game_ok (game\<lparr>HasPulledOnTurn := True, PullCount := PullCount game + 1\<rparr>)"
  using assms by (auto simp: game_ok_def pull_branch_of_def split: if_splits)

lemma pull_ok:
  assumes "registry_ok games"
  shows "registry_ok (registry_of (handle_pull games m))"
proof (cases "exists_active games (Chat m)")
  case False
  then show ?thesis using assms by (simp add: handle_pull_def)
next
  case True
  then obtain game where g: "games (Chat m) = Some game"
    by (auto dest: exists_active_Some)
  with assms have "game_ok game" by (simp add: registry_ok_def)
  then show ?thesis
    using assms g True
    by (auto simp: handle_pull_def Let_def split: sum.splits pull_branch.splits
        intro!: registry_ok_upd registry_ok_del pull_game_ok)
qed

lemma stop_ok: "registry_ok games \<Longrightarrow> registry_ok (registry_of (handle_stop games m))"
  by (simp add: handle_stop_def registry_ok_del)

lemma status_same: "registry_of (handle_status games m) = games"
  by (simp add: handle_status_def Let_def split: sum.splits)

lemma handle_ok: "registry_ok games \<Longrightarrow> registry_ok (registry_of (handle games cmd m))"
  by (cases cmd)
    (simp_all add: create_ok join_ok start_same skip_ok pass_ok pull_ok stop_ok
      status_same handle_help_def)

lemma reachable_ok: "reachable games \<Longrightarrow> registry_ok games"
proof (induction rule: reachable.induct)
  case init
  show ?case by (simp add: registry_ok_def)
next
  case (step games cmd m)
  then show ?case by (simp add: handle_ok)
qed

lemma reachable_run: "reachable games \<Longrightarrow> reachable (run games evs)"
  by (induction games evs rule: run.induct) (auto intro: reachable.step)

lemma newgame_reachable: "reachable [1 \<mapsto> newgame]"
  using reachable_run [OF reachable.init] newgame_run by metis

lemma midgame_reachable: "reachable [1 \<mapsto> midgame]"
  using reachable_run [OF reachable.init] midgame_run by metis

lemma lastgame_reachable: "reachable [1 \<mapsto> lastgame]"
  using reachable_run [OF reachable.init] lastgame_run by metis

section \<open>The turn counter stays small\<close>

lemma skips_at_upd: "skips_at (sk(p \<mapsto> v)) q = (if q = p then v else skips_at sk q)"
  by (simp add: skips_at_def)

lemma sum_list_upd_absent:
  "p \<notin> set ps \<Longrightarrow> (\<Sum>q\<leftarrow>ps. 2 - skips_at (sk(p \<mapsto> v)) q) = (\<Sum>q\<leftarrow>ps. 2 - skips_at sk q)"
  by (induction ps) (auto simp: skips_at_upd)

lemma sum_list_upd_present:
  "distinct ps \<Longrightarrow> p \<in> set ps \<Longrightarrow>
   (\<Sum>q\<leftarrow>ps. 2 - skips_at (sk(p \<mapsto> skips_at sk p - 1)) q) = (\<Sum>q\<leftarrow>ps. 2 - skips_at sk q) + 1"
proof (induction ps)
  case Nil
  then show ?case by simp
next
  case (Cons a ps)
  let ?sk' = "sk(p \<mapsto> skips_at sk p - 1)"
  show ?case
  proof (cases "a = p")
    case True
    then have "p \<notin> set ps" using Cons.prems(1) by simp
    then have rest: "(\<Sum>q\<leftarrow>ps. 2 - skips_at ?sk' q) = (\<Sum>q\<leftarrow>ps. 2 - skips_at sk q)"
      by (rule sum_list_upd_absent)
    have first: "skips_at ?sk' p = skips_at sk p - 1"
      by (simp add: skips_at_upd)
    have "(\<Sum>q\<leftarrow>a # ps. 2 - skips_at ?sk' q) = (2 - skips_at ?sk' p) + (\<Sum>q\<leftarrow>ps. 2 - skips_at ?sk' q)"
      using True by simp
    also have "\<dots> = (2 - (skips_at sk p - 1)) + (\<Sum>q\<leftarrow>ps. 2 - skips_at sk q)"
      by (simp only: rest first)
    also have "\<dots> = (\<Sum>q\<leftarrow>a # ps. 2 - skips_at sk q) + 1"
      using True by simp
    finally show ?thesis .
  next
    case False
    then have mem: "p \<in> set ps" using Cons.prems(2) by simp
    have "distinct ps" using Cons.prems(1) by simp
    then have rest: "(\<Sum>q\<leftarrow>ps. 2 - skips_at ?sk' q) = (\<Sum>q\<leftarrow>ps. 2 - skips_at sk q) + 1"
      using mem by (rule Cons.IH)
    have first: "skips_at ?sk' a = skips_at sk a"
      using False by (simp add: skips_at_upd)
    have "(\<Sum>q\<leftarrow>a # ps. 2 - skips_at ?sk' q) = (2 - skips_at ?sk' a) + (\<Sum>q\<leftarrow>ps. 2 - skips_at ?sk' q)"
      by simp
    also have "\<dots> = (2 - skips_at sk a) + ((\<Sum>q\<leftarrow>ps. 2 - skips_at sk q) + 1)"
      by (simp only: rest first)
    also have "\<dots> = (\<Sum>q\<leftarrow>a # ps. 2 - skips_at sk q) + 1"
      by simp
    finally show ?thesis .
  qed
qed

lemma join_turn_ok:
  assumes "turn_ok game" and "p \<notin> set (Players game)"
  shows "turn_ok (game\<lparr>Players := Players game @ [p], Skips := (Skips game)(p \<mapsto> 2)\<rparr>)"
proof -
  have rest: "(\<Sum>q\<leftarrow>Players game. 2 - skips_at ((Skips game)(p \<mapsto> 2)) q) =
              (\<Sum>q\<leftarrow>Players game. 2 - skips_at (Skips game) q)"
    using assms(2) by (rule sum_list_upd_absent)
  have new: "skips_at ((Skips game)(p \<mapsto> 2)) p = 2"
    by (simp add: skips_at_upd)
  have "skips_used (game\<lparr>Players := Players game @ [p], Skips := (Skips game)(p \<mapsto> 2)\<rparr>) =
          skips_used game"
    by (simp add: skips_used_def rest new)
  then show ?thesis using assms(1) by (simp add: turn_ok_def)
qed

lemma skip_turn_ok:
  assumes "turn_ok game" and "game_ok game" and "currentPlayer game = Inr cur"
    and "\<not> HasPulledOnTurn game"
  shows "turn_ok (game\<lparr>Skips := (Skips game)(cur \<mapsto> skips_at (Skips game) cur - 1),
                        CurrentPos := CurrentPos game + 1, HasPulledOnTurn := False\<rparr>)"
proof -
  let ?game' = "game\<lparr>Skips := (Skips game)(cur \<mapsto> skips_at (Skips game) cur - 1),
                      CurrentPos := CurrentPos game + 1, HasPulledOnTurn := False\<rparr>"
  have "cur \<in> set (Players game)"
    using assms(3) by (auto simp: currentPlayer_def dest: player_at_member)
  moreover have "distinct (Players game)" using assms(2) by (simp add: game_ok_def)
  ultimately have "skips_used ?game' = skips_used game + 1"
    by (simp add: skips_used_def sum_list_upd_present)
  then show ?thesis using assms(1,4) by (simp add: turn_ok_def)
qed

lemma pass_turn_ok:
  "turn_ok game \<Longrightarrow> HasPulledOnTurn game \<Longrightarrow>
   turn_ok (game\<lparr>CurrentPos := CurrentPos game + 1, HasPulledOnTurn := False\<rparr>)"
  by (simp add: turn_ok_def skips_used_def split: if_splits)

lemma pull_turn_ok:
  "turn_ok game \<Longrightarrow>
   turn_ok (game\<lparr>HasPulledOnTurn := True, PullCount := PullCount game + 1\<rparr>)"
  by (simp add: turn_ok_def skips_used_def split: if_splits)

lemma registry_turn_ok_upd:
  "registry_turn_ok games \<Longrightarrow> game_ok game \<Longrightarrow> turn_ok game \<Longrightarrow>
   registry_turn_ok (games(c \<mapsto> game))"
  by (simp add: registry_turn_ok_def)

lemma registry_turn_ok_del: "registry_turn_ok games \<Longrightarrow> registry_turn_ok (games(c := None))"
  by (simp add: registry_turn_ok_def)

lemma handle_turn_ok:
  assumes "registry_turn_ok games"
  shows "registry_turn_ok (registry_of (handle games cmd m))"
proof (cases "exists_active games (Chat m)")
  case False
  have "game_ok g \<and> turn_ok g"
    if "g = \<lparr>Players = [p], Bullet = rand_Intn 6 raw, CurrentPos = 0, PullCount = 0,
            IsActive = True, Skips = [p \<mapsto> 2], HasPulledOnTurn = False\<rparr>" for g p raw
    using that rand_Intn_6 [of raw]
    by (simp add: game_ok_def turn_ok_def skips_used_def skips_at_def)
  then show ?thesis
    using False assms
    by (cases cmd)
      (simp_all add: handle_create_def handle_join_def handle_start_def handle_skip_def
        handle_pass_def handle_pull_def handle_stop_def handle_help_def handle_status_def
        Let_def registry_turn_ok_upd)
next
  case True
  then obtain game where g: "games (Chat m) = Some game"
    by (auto dest: exists_active_Some)
  with assms have ok: "game_ok game" and tok: "turn_ok game"
    by (simp_all add: registry_turn_ok_def)
  show ?thesis
  proof (cases cmd)
    case (Create raw)
    then show ?thesis using True assms by (simp add: handle_create_def)
  next
    case Join
    then show ?thesis
      using True g ok tok assms
      by (simp add: handle_join_def Let_def registry_turn_ok_upd join_game_ok join_turn_ok)
  next
    case Start
    then show ?thesis using assms by (simp add: start_same)
  next
    case Skip
    then show ?thesis
      using True g ok tok assms
      by (auto simp: handle_skip_def Let_def split: sum.splits
          intro!: registry_turn_ok_upd skip_game_ok skip_turn_ok)
  next
    case Pass
    then show ?thesis
      using True g ok tok assms
      by (auto simp: handle_pass_def Let_def split: sum.splits
          intro!: registry_turn_ok_upd pass_game_ok pass_turn_ok)
  next
    case Pull
    then show ?thesis
      using True g ok tok assms
      by (auto simp: handle_pull_def Let_def split: sum.splits pull_branch.splits
          intro!: registry_turn_ok_upd registry_turn_ok_del pull_game_ok pull_turn_ok)
  next
    case Stop
    then show ?thesis using assms by (simp add: handle_stop_def registry_turn_ok_del)
  next
    case Help
    then show ?thesis using assms by (simp add: handle_help_def)
  next
    case Status
    then show ?thesis using assms by (simp add: status_same)
  qed
qed

lemma reachable_turn_ok: "reachable games \<Longrightarrow> registry_turn_ok games"
proof (induction rule: reachable.induct)
  case init
  show ?case by (simp add: registry_turn_ok_def)
next
  case (step games cmd m)
  then show ?case by (simp add: handle_turn_ok)
qed

lemma skips_used_le: 
  "list_all (\<lambda>p. 0 \<le> skips_at sk p \<and> skips_at sk p \<le> 2) ps \<Longrightarrow>
   (\<Sum>p\<leftarrow>ps. 2 - skips_at sk p) \<le> 2 * int (length ps)"
  by (induction ps) auto

lemma CurrentPos_bounded:
  assumes "reachable games" and "games c = Some game"
  shows "0 \<le> CurrentPos game \<and> CurrentPos game \<le> 5 + 2 * int (length (Players game))"
proof -
  have ok: "game_ok game" and tok: "turn_ok game"
    using reachable_turn_ok [OF assms(1)] assms(2) by (simp_all add: registry_turn_ok_def)
  have "skips_used game \<le> 2 * int (length (Players game))"
    using ok by (simp add: game_ok_def skips_used_def skips_used_le)
  moreover have "PullCount game \<le> 5" using ok by (simp add: game_ok_def)
  ultimately show ?thesis using ok tok by (simp add: game_ok_def turn_ok_def split: if_splits)
qed

section \<open>The counters of one game along a run\<close>

lemma create_keeps:
  "exists_active games c \<Longrightarrow> registry_of (handle_create games raw m) c = games c"
  by (auto simp: handle_create_def Let_def)

lemma join_counters:
  assumes "games c = Some game" and "registry_of (handle_join games m) c = Some game'"
  shows "PullCount game' = PullCount game \<and> Bullet game' = Bullet game"
  using assms by (auto simp: handle_join_def Let_def split: if_splits)

lemma skip_counters:
  assumes "games c = Some game" and "registry_of (handle_skip games m) c = Some game'"
  shows "PullCount game' = PullCount game \<and> Bullet game' = Bullet game"
  using assms by (auto simp: handle_skip_def Let_def split: if_splits sum.splits)

lemma pass_counters:
  assumes "games c = Some game" and "registry_of (handle_pass games m) c = Some game'"
  shows "PullCount game' = PullCount game \<and> Bullet game' = Bullet game"
  using assms by (auto simp: handle_pass_def Let_def split: if_splits sum.splits)

lemma pull_counters:
  assumes "games c = Some game" and "registry_of (handle_pull games m) c = Some game'"
  shows "PullCount game \<le> PullCount game' \<and> Bullet game' = Bullet game"
  using assms
  by (auto simp: handle_pull_def Let_def split: if_splits sum.splits pull_branch.splits)

lemma stop_counters:
  assumes "games c = Some game" and "registry_of (handle_stop games m) c = Some game'"
  shows "game' = game"
  using assms by (auto simp: handle_stop_def split: if_splits)

lemma handle_counters:
  assumes "registry_ok games" and "games c = Some game"
    and "registry_of (handle games cmd m) c = Some game'"
  shows "PullCount game \<le> PullCount game' \<and> Bullet game' = Bullet game"
proof (cases cmd)
  case (Create raw)
  have "exists_active games c"
    using assms(1,2) by (simp add: registry_ok_def game_ok_def exists_active_def)
  then show ?thesis using assms(2,3) Create by (simp add: create_keeps)
next
  case Join
  then show ?thesis using join_counters [of games c game m game'] assms(2,3) by simp
next
  case Start
  then show ?thesis using assms(2,3) by (simp add: start_same)
next
  case Skip
  then show ?thesis using skip_counters [of games c game m game'] assms(2,3) by simp
next
  case Pass
  then show ?thesis using pass_counters [of games c game m game'] assms(2,3) by simp
next
  case Pull
  then show ?thesis using pull_counters [of games c game m game'] assms(2,3) by simp
next
  case Stop
  then show ?thesis using stop_counters [of games c game m game'] assms(2,3) by simp
next
  case Help
  then show ?thesis using assms(2,3) by (simp add: handle_help_def)
next
  case Status
  then show ?thesis using assms(2,3) by (simp add: status_same)
qed

lemma run_counters:
  assumes "registry_ok games" and "alive c games evs" and "games c = Some game"
    and "run games evs c = Some game'"
  shows "PullCount game \<le> PullCount game' \<and> Bullet game' = Bullet game"
  using assms
proof (induction evs arbitrary: games game)
  case Nil
  then show ?case by simp
next
  case (Cons ev evs)
  obtain cmd m where ev: "ev = (cmd, m)" by (cases ev)
  let ?next = "registry_of (handle games cmd m)"
  from Cons.prems(2) ev have al: "alive c ?next evs" by simp
  then obtain mid where mid: "?next c = Some mid" by (cases evs) auto
  have ok: "registry_ok ?next" using Cons.prems(1) by (rule handle_ok)
  have one: "PullCount game \<le> PullCount mid \<and> Bullet mid = Bullet game"
    using Cons.prems(1,3) mid by (rule handle_counters)
  have "run ?next evs c = Some game'" using Cons.prems(4) ev by simp
  with Cons.IH [OF ok al mid] have "PullCount mid \<le> PullCount game' \<and> Bullet game' = Bullet mid"
    by simp
  with one show ?case by simp
qed

section \<open>No handler panics on a reachable registry\<close>

lemma game_ok_currentPlayer:
  "game_ok game \<Longrightarrow> \<exists>cur. currentPlayer game = Inr cur"
  by (simp add: game_ok_def currentPlayer_in_range)

lemma handle_no_panic:
  assumes "registry_ok games"
  shows "panic_of (handle games cmd m) = None"
proof (cases "exists_active games (Chat m)")
  case False
  then show ?thesis
    by (cases cmd)
      (simp_all add: handle_create_def handle_join_def handle_start_def handle_skip_def
        handle_pass_def handle_pull_def handle_stop_def handle_help_def handle_status_def
        Let_def)
next
  case True
  then obtain game where g: "games (Chat m) = Some game"
    by (auto dest: exists_active_Some)
  with assms have ok: "game_ok game" by (simp add: registry_ok_def)
  then obtain cur where cur: "currentPlayer game = Inr cur"
    by (auto dest: game_ok_currentPlayer)
  have skip: "\<exists>q. currentPlayer
      (game\<lparr>Skips := (Skips game)(cur \<mapsto> skips_at (Skips game) cur - 1),
             CurrentPos := CurrentPos game + 1, HasPulledOnTurn := False\<rparr>) = Inr q"
    using ok by (simp add: game_ok_def currentPlayer_in_range)
  have pass: "\<exists>q. currentPlayer
      (game\<lparr>CurrentPos := CurrentPos game + 1, HasPulledOnTurn := False\<rparr>) = Inr q"
    using ok by (simp add: game_ok_def currentPlayer_in_range)
  show ?thesis
  proof (cases cmd)
    case Skip
    then show ?thesis using True g cur skip by (auto simp: handle_skip_def Let_def)
  next
    case Pass
    then show ?thesis using True g cur pass by (auto simp: handle_pass_def Let_def)
  next
    case Pull
    then show ?thesis
      using True g cur by (simp add: handle_pull_def Let_def split: pull_branch.splits)
  next
    case Status
    then show ?thesis using True g cur by (simp add: handle_status_def Let_def)
  qed (simp_all add: handle_create_def handle_join_def handle_start_def handle_stop_def
        handle_help_def Let_def True)
qed

section \<open>Trigger pulls\<close>

text \<open>
  C1. A pull by the player on turn with \<^verbatim>\<open>PullCount\<close> equal to \<^verbatim>\<open>Bullet\<close> is fatal in
  every game, whatever the turn counter and the skips are: the chat's entry is deleted
  and the one text sent is the fatal one; skips and passes leave both counters as they
  are. The fatal text is formatted with \<^verbatim>\<open>m.Sender.Username\<close>, where the turn check
  and the survival text use \<^verbatim>\<open>getPlayerID(m.Sender)\<close>: for a sender without a
  username it does not name the player.
\<close>

theorem fatal_pull:
  assumes "games (Chat m) = Some game" and "IsActive game"
    and "currentPlayer game = Inr (getPlayerID (Sender m))"
    and "PullCount game = Bullet game"
  shows "handle_pull games m = Sent (games(Chat m := None)) [Bang (Username (Sender m))] \<and>
         (Username (Sender m) = [] \<longrightarrow> Username (Sender m) \<noteq> getPlayerID (Sender m)) \<and>
         (\<forall>m' c g g'. games c = Some g \<and> registry_of (handle_skip games m') c = Some g' \<longrightarrow>
            PullCount g' = PullCount g \<and> Bullet g' = Bullet g) \<and>
         (\<forall>m' c g g'. games c = Some g \<and> registry_of (handle_pass games m') c = Some g' \<longrightarrow>
            PullCount g' = PullCount g \<and> Bullet g' = Bullet g)"
proof -
  have "handle_pull games m = Sent (games(Chat m := None)) [Bang (Username (Sender m))]"
    using assms by (simp add: handle_pull_def exists_active_def pull_branch_of_def)
  moreover have "Username (Sender m) = [] \<longrightarrow> Username (Sender m) \<noteq> getPlayerID (Sender m)"
    using getPlayerID_nonempty [of "Sender m"] by auto
  moreover have "PullCount g' = PullCount g \<and> Bullet g' = Bullet g"
    if "games c = Some g \<and> registry_of (handle_skip games m') c = Some g'" for m' c g g'
    using that skip_counters [of games c g m' g'] by simp
  moreover have "PullCount g' = PullCount g \<and> Bullet g' = Bullet g"
    if "games c = Some g \<and> registry_of (handle_pass games m') c = Some g'" for m' c g g'
    using that pass_counters [of games c g m' g'] by simp
  ultimately show ?thesis by blast
qed

theorem fatal_pull_witness:
  "run Map.empty [(Create 0, bob)] (Chat bob) = Some firstgame \<and> IsActive firstgame \<and>
   currentPlayer firstgame = Inr (getPlayerID (Sender bob)) \<and>
   PullCount firstgame = Bullet firstgame \<and>
   Username (Sender bob) = [] \<and> getPlayerID (Sender bob) = ''Bob'' \<and>
   replies_of (handle_pull (run Map.empty [(Create 0, bob)]) bob) = [Bang []] \<and>
   registry_of (handle_pull (run Map.empty [(Create 0, bob)]) bob) (Chat bob) = None \<and>
   registry_of (handle_skip (run Map.empty [(Create 0, bob)]) bob) (Chat bob) =
     Some (firstgame\<lparr>Skips := [''Bob'' \<mapsto> 1], CurrentPos := 1\<rparr>) \<and>
   PullCount (firstgame\<lparr>Skips := [''Bob'' \<mapsto> 1], CurrentPos := 1\<rparr>) = PullCount firstgame \<and>
   registry_of (handle_pass (run Map.empty [(Create 0, bob)]) bob) (Chat bob) = Some firstgame"
proof -
  let ?games = "run Map.empty [(Create 0, bob)]"
  let ?skipped = "firstgame\<lparr>Skips := [''Bob'' \<mapsto> 1], CurrentPos := 1\<rparr>"
  have h1: "?games (Chat bob) = Some firstgame"
    by (simp add: handler_defs sender_defs firstgame_def)
  have h2: "IsActive firstgame" and h4: "PullCount firstgame = Bullet firstgame"
    by (simp_all add: firstgame_def)
  have h3: "currentPlayer firstgame = Inr (getPlayerID (Sender bob))"
    by (simp add: firstgame_def bob_def handler_defs)
  have skip: "registry_of (handle_skip ?games bob) (Chat bob) = Some ?skipped"
    by (simp add: handler_defs sender_defs firstgame_def)
  have pass: "registry_of (handle_pass ?games bob) (Chat bob) = Some firstgame"
    by (simp add: handler_defs sender_defs firstgame_def)
  note inst = fatal_pull [of ?games bob firstgame, OF h1 h2 h3 h4]
  have pull: "handle_pull ?games bob =
          Sent (?games(Chat bob := None)) [Bang (Username (Sender bob))]"
    using inst by blast
  have kept: "PullCount ?skipped = PullCount firstgame"
    using inst h1 skip by blast
  have kept': "PullCount firstgame = PullCount firstgame \<and> Bullet firstgame = Bullet firstgame"
    using inst h1 pass by blast
  have name: "Username (Sender bob) = []" "getPlayerID (Sender bob) = ''Bob''"
    by (simp_all add: bob_def getPlayerID_def)
  have "replies_of (handle_pull ?games bob) = [Bang []]"
    and "registry_of (handle_pull ?games bob) (Chat bob) = None"
    using pull name by simp_all
  then show ?thesis using h1 h2 h3 h4 skip pass kept name by blast
qed

text \<open>
  C4. A pull by the player on turn that meets neither the bullet nor the last chamber
  adds one to \<^verbatim>\<open>PullCount\<close>, sets \<^verbatim>\<open>HasPulledOnTurn\<close> and changes nothing else. The
  text reports the chambers left, 6 minus the new \<^verbatim>\<open>PullCount\<close>, and as odds 100
  divided by that number (computed in the reals; the source prints the \<^verbatim>\<open>float64\<close>
  value with one decimal). The turn counter stays, so the same player is on turn: the
  next pull of that player is not turned away, and a pass is accepted and moves the turn.
\<close>

theorem pull_survives:
  assumes "games (Chat m) = Some game" and "IsActive game"
    and "currentPlayer game = Inr (getPlayerID (Sender m))"
    and "PullCount game \<noteq> Bullet game" and "0 < 6 - PullCount game - 1"
  shows "\<exists>game'.
     handle_pull games m =
       Sent (games(Chat m \<mapsto> game'))
         [Survived (getPlayerID (Sender m)) (6 - PullCount game')
            (100 / real_of_int (6 - PullCount game'))
            (skips_at (Skips game) (getPlayerID (Sender m)))] \<and>
     PullCount game' = PullCount game + 1 \<and> HasPulledOnTurn game' \<and>
     CurrentPos game' = CurrentPos game \<and> Players game' = Players game \<and>
     Bullet game' = Bullet game \<and> Skips game' = Skips game \<and> IsActive game' \<and>
     currentPlayer game' = Inr (getPlayerID (Sender m)) \<and>
     replies_of (handle_pull (games(Chat m \<mapsto> game')) m) \<noteq> [NoActiveGame] \<and>
     (\<forall>p. replies_of (handle_pull (games(Chat m \<mapsto> game')) m) \<noteq> [NotYourTurnPull p]) \<and>
     registry_of (handle_pass (games(Chat m \<mapsto> game')) m) (Chat m) =
       Some (game'\<lparr>CurrentPos := CurrentPos game + 1, HasPulledOnTurn := False\<rparr>)"
proof -
  let ?game' = "game\<lparr>HasPulledOnTurn := True, PullCount := PullCount game + 1\<rparr>"
  let ?games' = "games(Chat m \<mapsto> ?game')"
  have branch: "pull_branch_of game = Survival"
    using assms(4,5) by (simp add: pull_branch_of_def remainingChambers_def)
  have cur': "currentPlayer ?game' = Inr (getPlayerID (Sender m))"
    using assms(3) by (simp add: currentPlayer_def)
  have active': "exists_active ?games' (Chat m)"
    using assms(2) by (simp add: exists_active_def)
  have "6 - PullCount ?game' = remainingChambers game"
    by (simp add: remainingChambers_def)
  moreover have "100 / real_of_int (6 - PullCount ?game') = oddsPercentage game"
    by (simp add: oddsPercentage_def remainingChambers_def)
  ultimately have pull: "handle_pull games m =
       Sent ?games'
         [Survived (getPlayerID (Sender m)) (6 - PullCount ?game')
            (100 / real_of_int (6 - PullCount ?game'))
            (skips_at (Skips game) (getPlayerID (Sender m)))]"
    using assms(1,2,3) branch by (simp add: handle_pull_def exists_active_def)
  have again: "replies_of (handle_pull ?games' m) \<noteq> [NoActiveGame] \<and>
     (\<forall>p. replies_of (handle_pull ?games' m) \<noteq> [NotYourTurnPull p])"
    using active' cur' by (simp add: handle_pull_def Let_def split: pull_branch.splits)
  have pass: "registry_of (handle_pass ?games' m) (Chat m) =
       Some (?game'\<lparr>CurrentPos := CurrentPos game + 1, HasPulledOnTurn := False\<rparr>)"
    using active' cur' by (simp add: handle_pass_def Let_def split: sum.splits)
  show ?thesis
    using pull cur' again pass assms(2) by (intro exI [of _ ?game']) simp
qed

theorem pull_survives_witness:
  "[1 \<mapsto> newgame] (Chat alice) = Some newgame \<and> IsActive newgame \<and>
   currentPlayer newgame = Inr (getPlayerID (Sender alice)) \<and>
   PullCount newgame \<noteq> Bullet newgame \<and> 0 < 6 - PullCount newgame - 1 \<and>
   replies_of (handle_pull [1 \<mapsto> newgame] alice) = [Survived ''alice'' 5 20 2] \<and>
   map_option PullCount (registry_of (handle_pull [1 \<mapsto> newgame] alice) 1) = Some 1"
proof -
  have h1: "[1 \<mapsto> newgame] (Chat alice) = Some newgame"
    by (simp add: alice_def)
  have h2: "IsActive newgame" by (simp add: newgame_def)
  have h3: "currentPlayer newgame = Inr (getPlayerID (Sender alice))"
    by (simp add: newgame_def alice_def handler_defs)
  have h4: "PullCount newgame \<noteq> Bullet newgame" by (simp add: newgame_def)
  have h5: "0 < 6 - PullCount newgame - 1" by (simp add: newgame_def)
  from pull_survives [of "[1 \<mapsto> newgame]" alice newgame, OF h1 h2 h3 h4 h5]
  obtain game' where "handle_pull [1 \<mapsto> newgame] alice =
       Sent ([1 \<mapsto> newgame](Chat alice \<mapsto> game'))
         [Survived (getPlayerID (Sender alice)) (6 - PullCount game')
            (100 / real_of_int (6 - PullCount game'))
            (skips_at (Skips newgame) (getPlayerID (Sender alice)))]"
    and "PullCount game' = PullCount newgame + 1"
    by blast
  then have "replies_of (handle_pull [1 \<mapsto> newgame] alice) = [Survived ''alice'' 5 20 2] \<and>
   map_option PullCount (registry_of (handle_pull [1 \<mapsto> newgame] alice) 1) = Some 1"
    by (simp add: newgame_def alice_def getPlayerID_def skips_at_def)
  with h1 h2 h3 h4 h5 show ?thesis by simp
qed

text \<open>
  C6. In every reachable registry no game can take the chamber-exhausted branch of the
  pull handler: whenever \<^verbatim>\<open>PullCount\<close> differs from \<^verbatim>\<open>Bullet\<close>, at least one chamber
  remains after the pull.
\<close>

theorem exhausted_unreachable:
  assumes "reachable games" and "games c = Some game"
  shows "pull_branch_of game \<noteq> ChamberExhausted \<and>
         (PullCount game \<noteq> Bullet game \<longrightarrow> 0 < 6 - PullCount game - 1)"
proof -
  have "game_ok game" using reachable_ok [OF assms(1)] assms(2) by (simp add: registry_ok_def)
  then show ?thesis
    by (simp add: game_ok_def pull_branch_of_def remainingChambers_def)
qed

theorem exhausted_unreachable_witness:
  "reachable [1 \<mapsto> lastgame] \<and> [1 \<mapsto> lastgame] 1 = Some lastgame \<and>
   pull_branch_of lastgame = BulletMatch \<and> pull_branch_of lastgame \<noteq> ChamberExhausted"
proof -
  have h: "[1 \<mapsto> lastgame] 1 = Some lastgame" by simp
  have "pull_branch_of lastgame = BulletMatch"
    by (simp add: pull_branch_of_def lastgame_def)
  then show ?thesis
    using exhausted_unreachable [OF lastgame_reachable h] lastgame_reachable h by simp
qed

text \<open>
  C9. A pull by a sender who is not \<^verbatim>\<open>Players[CurrentPos % len(Players)]\<close> sends the
  not-your-turn text naming exactly that player and returns the registry as it was.
\<close>

theorem pull_out_of_turn:
  assumes "games (Chat m) = Some game" and "IsActive game"
    and "Players game \<noteq> []" and "0 \<le> CurrentPos game"
    and "getPlayerID (Sender m) \<noteq>
           Players game ! nat (CurrentPos game mod int (length (Players game)))"
  shows "handle_pull games m =
           Sent games
             [NotYourTurnPull
                (Players game ! nat (CurrentPos game mod int (length (Players game))))]"
proof -
  have "currentPlayer game =
          Inr (Players game ! nat (CurrentPos game mod int (length (Players game))))"
    using assms(3,4) by (rule currentPlayer_in_range)
  then show ?thesis
    using assms(1,2,5) by (simp add: handle_pull_def exists_active_def)
qed

theorem pull_out_of_turn_witness:
  "[1 \<mapsto> midgame] (Chat bob) = Some midgame \<and> IsActive midgame \<and> Players midgame \<noteq> [] \<and>
   0 \<le> CurrentPos midgame \<and>
   getPlayerID (Sender bob) \<noteq>
     Players midgame ! nat (CurrentPos midgame mod int (length (Players midgame))) \<and>
   handle_pull [1 \<mapsto> midgame] bob = Sent [1 \<mapsto> midgame] [NotYourTurnPull ''alice'']"
proof -
  have h1: "[1 \<mapsto> midgame] (Chat bob) = Some midgame" by (simp add: bob_def)
  have h2: "IsActive midgame" and h3: "Players midgame \<noteq> []" and h4: "0 \<le> CurrentPos midgame"
    by (simp_all add: midgame_def)
  have h5: "getPlayerID (Sender bob) \<noteq>
     Players midgame ! nat (CurrentPos midgame mod int (length (Players midgame)))"
    by (simp add: midgame_def bob_def getPlayerID_def)
  have "Players midgame ! nat (CurrentPos midgame mod int (length (Players midgame))) = ''alice''"
    by (simp add: midgame_def)
  then show ?thesis
    using pull_out_of_turn [of "[1 \<mapsto> midgame]" bob midgame, OF h1 h2 h3 h4 h5] h1 h2 h3 h4 h5
    by simp
qed

section \<open>The start gate is not enforced\<close>

text \<open>
  \<^verbatim>\<open>/start\<close> tests the roster and announces the first player, and the text of
  \<^verbatim>\<open>/create\<close> asks for it "when all players have joined"; but it writes no field
  (lemma \<open>start_same\<close>), and no other handler can tell whether it has run.
\<close>

text \<open>
  C2 fails on the code. A game created by alice alone is refused by \<^verbatim>\<open>/start\<close> (fewer
  than two players) and stays as it was; her next \<^verbatim>\<open>/pull\<close> is carried out all the same
  and, with the bullet in chamber 0, ends the game with her death. With the bullet in
  chamber 3 and no \<^verbatim>\<open>/start\<close> at all, her pull is a survival that moves \<^verbatim>\<open>PullCount\<close>
  from 0 to 1, her skip moves the turn, and so does her pass after a pull: none of the
  three is turned away and each changes the game.
\<close>

theorem pull_before_start:
  "replies_of (handle_start (run Map.empty [(Create 0, alice)]) alice) = [InsufficientPlayers] \<and>
   registry_of (handle_start (run Map.empty [(Create 0, alice)]) alice) =
     run Map.empty [(Create 0, alice)] \<and>
   map_option Players (run Map.empty [(Create 0, alice), (Start, alice)] 1) = Some [''alice''] \<and>
   replies_of (handle_pull (run Map.empty [(Create 0, alice), (Start, alice)]) alice) =
     [Bang ''alice''] \<and>
   registry_of (handle_pull (run Map.empty [(Create 0, alice), (Start, alice)]) alice) 1 = None \<and>
   replies_of (handle_pull (run Map.empty [(Create 3, alice)]) alice) =
     [Survived ''alice'' 5 20 2] \<and>
   map_option PullCount (run Map.empty [(Create 3, alice)] 1) = Some 0 \<and>
   map_option PullCount
     (registry_of (handle_pull (run Map.empty [(Create 3, alice)]) alice) 1) = Some 1 \<and>
   replies_of (handle_skip (run Map.empty [(Create 3, alice)]) alice) =
     [Skipped ''alice'' 1 ''alice''] \<and>
   map_option CurrentPos
     (registry_of (handle_skip (run Map.empty [(Create 3, alice)]) alice) 1) = Some 1 \<and>
   replies_of (handle_pass (run Map.empty [(Create 3, alice), (Pull, alice)]) alice) =
     [Passed ''alice'' ''alice''] \<and>
   map_option CurrentPos
     (registry_of (handle_pass (run Map.empty [(Create 3, alice), (Pull, alice)]) alice) 1) =
     Some 1"
  by (simp add: handler_defs sender_defs)

text \<open>
  C3 fails on the code. Alice creates, bob joins, \<^verbatim>\<open>/start\<close> announces the game, and
  each of the two pulls once and passes, so that alice is on turn again. A third user
  then joins: the join is accepted and the roster grows to three, and with the turn
  counter at 2 the player on turn is now the newcomer, without a pass or skip by alice.
\<close>

theorem join_after_start:
  "replies_of (handle_start (run Map.empty [(Create 3, alice), (Join, bob)]) alice) =
     [GameStarting, FirstUp ''alice''] \<and>
   map_option (\<lambda>game. (Players game, CurrentPos game, PullCount game))
     (run Map.empty [(Create 3, alice), (Join, bob), (Start, alice), (Pull, alice),
        (Pass, alice), (Pull, bob), (Pass, bob)] 1) = Some ([''alice'', ''Bob''], 2, 2) \<and>
   map_option currentPlayer
     (run Map.empty [(Create 3, alice), (Join, bob), (Start, alice), (Pull, alice),
        (Pass, alice), (Pull, bob), (Pass, bob)] 1) = Some (Inr ''alice'') \<and>
   replies_of (handle_join
     (run Map.empty [(Create 3, alice), (Join, bob), (Start, alice), (Pull, alice),
        (Pass, alice), (Pull, bob), (Pass, bob)]) anon) =
     [Joined [] [''alice'', ''Bob'', ''player42'']] \<and>
   map_option Players
     (run Map.empty [(Create 3, alice), (Join, bob), (Start, alice), (Pull, alice),
        (Pass, alice), (Pull, bob), (Pass, bob), (Join, anon)] 1) =
     Some [''alice'', ''Bob'', ''player42''] \<and>
   map_option currentPlayer
     (run Map.empty [(Create 3, alice), (Join, bob), (Start, alice), (Pull, alice),
        (Pass, alice), (Pull, bob), (Pass, bob), (Join, anon)] 1) = Some (Inr ''player42'')"
  by (simp add: handler_defs sender_defs Sprintf_d_def string_of_nat.simps [of 42]
      string_of_nat.simps [of 4])

text \<open>
  What the claim says of a join holds whenever the join is accepted: a sender already
  in the roster gets the duplicate text and the registry stays as it is, any other
  sender is appended to the roster with an allowance of two skips; a chat without an
  active game gets the no-active-game text.
\<close>

lemma join_appends:
  "(\<not> exists_active games (Chat m) \<longrightarrow> handle_join games m = Sent games [NoActiveGame]) \<and>
   (\<forall>game::Game. games (Chat m) = Some game \<and> IsActive game \<longrightarrow>
      (getPlayerID (Sender m) \<in> set (Players game) \<longrightarrow>
         handle_join games m = Sent games [DuplicatePlayer]) \<and>
      (getPlayerID (Sender m) \<notin> set (Players game) \<longrightarrow>
         (\<exists>game'.
            handle_join games m =
              Sent (games(Chat m \<mapsto> game')) [Joined (Username (Sender m)) (Players game')] \<and>
            Players game' = Players game @ [getPlayerID (Sender m)] \<and>
            skips_at (Skips game') (getPlayerID (Sender m)) = 2)))"
proof (intro conjI impI allI)
  assume "\<not> exists_active games (Chat m)"
  then show "handle_join games m = Sent games [NoActiveGame]"
    by (simp add: handle_join_def)
next
  fix game :: Game
  assume "games (Chat m) = Some game \<and> IsActive game"
    and "getPlayerID (Sender m) \<in> set (Players game)"
  then show "handle_join games m = Sent games [DuplicatePlayer]"
    by (simp add: handle_join_def exists_active_def)
next
  fix game :: Game
  let ?p = "getPlayerID (Sender m)"
  let ?game' = "game\<lparr>Players := Players game @ [?p], Skips := (Skips game)(?p \<mapsto> 2)\<rparr>"
  assume g: "games (Chat m) = Some game \<and> IsActive game"
    and new: "?p \<notin> set (Players game)"
  have "handle_join games m =
          Sent (games(Chat m \<mapsto> ?game')) [Joined (Username (Sender m)) (Players ?game')]"
    using g new by (simp add: handle_join_def exists_active_def Let_def)
  moreover have "skips_at (Skips ?game') ?p = 2"
    by (simp add: skips_at_def)
  ultimately show "\<exists>game'.
            handle_join games m =
              Sent (games(Chat m \<mapsto> game')) [Joined (Username (Sender m)) (Players game')] \<and>
            Players game' = Players game @ [getPlayerID (Sender m)] \<and>
            skips_at (Skips game') (getPlayerID (Sender m)) = 2"
    by (intro exI [of _ ?game']) simp
qed

section \<open>Counters and turns\<close>

text \<open>
  C5. Take a reachable registry and a chat that holds a game throughout a run of
  commands. Over that run \<^verbatim>\<open>PullCount\<close> does not decrease and stays between 0 and 6,
  and \<^verbatim>\<open>Bullet\<close> keeps its value, which lies in \<open>[0, 6)\<close>.
\<close>

theorem counters_bounded:
  assumes "reachable games" and "games c = Some game" and "alive c games evs"
    and "run games evs c = Some game'"
  shows "PullCount game \<le> PullCount game' \<and> 0 \<le> PullCount game' \<and> PullCount game' \<le> 6 \<and>
         0 \<le> Bullet game' \<and> Bullet game' < 6 \<and> Bullet game' = Bullet game"
proof -
  have ok: "registry_ok games" using assms(1) by (rule reachable_ok)
  have "registry_ok (run games evs)"
    using assms(1) by (intro reachable_ok reachable_run)
  with assms(4) have "game_ok game'" by (simp add: registry_ok_def)
  moreover have "PullCount game \<le> PullCount game' \<and> Bullet game' = Bullet game"
    using ok assms(3,2,4) by (rule run_counters)
  ultimately show ?thesis by (simp add: game_ok_def)
qed

theorem counters_bounded_witness:
  "reachable [1 \<mapsto> newgame] \<and> [1 \<mapsto> newgame] 1 = Some newgame \<and>
   alive 1 [1 \<mapsto> newgame] [(Join, bob), (Start, alice), (Pull, alice)] \<and>
   run [1 \<mapsto> newgame] [(Join, bob), (Start, alice), (Pull, alice)] 1 = Some midgame \<and>
   PullCount newgame \<le> PullCount midgame \<and> PullCount midgame \<le> 6 \<and>
   0 \<le> Bullet midgame \<and> Bullet midgame < 6 \<and> Bullet midgame = Bullet newgame"
proof -
  have h2: "[1 \<mapsto> newgame] 1 = Some newgame" by simp
  have h4: "run [1 \<mapsto> newgame] [(Join, bob), (Start, alice), (Pull, alice)] 1 = Some midgame"
    unfolding newgame_to_midgame by simp
  show ?thesis
    using counters_bounded [OF newgame_reachable h2 newgame_alive h4]
      newgame_reachable h2 newgame_alive h4
    by simp
qed

text \<open>
  For the player on turn the two handlers test the flag \<^verbatim>\<open>HasPulledOnTurn\<close> with
  opposite polarity: \<^verbatim>\<open>/skip\<close> is answered with the already-pulled text if and only if
  the flag is set, \<^verbatim>\<open>/pass\<close> with the must-pull-first text if and only if it is not,
  and exactly one of the two rejections applies in every state.
\<close>

lemma skip_pass_by_flag:
  assumes "games (Chat m) = Some game" and "IsActive game"
    and "currentPlayer game = Inr (getPlayerID (Sender m))"
  shows "(AlreadyActedThisTurn \<in> set (replies_of (handle_skip games m))) = HasPulledOnTurn game \<and>
         (MustPullFirst \<in> set (replies_of (handle_pass games m))) = (\<not> HasPulledOnTurn game) \<and>
         (HasPulledOnTurn game \<longrightarrow> handle_skip games m = Sent games [AlreadyActedThisTurn]) \<and>
         (\<not> HasPulledOnTurn game \<longrightarrow> handle_pass games m = Sent games [MustPullFirst]) \<and>
         (AlreadyActedThisTurn \<in> set (replies_of (handle_skip games m))) \<noteq>
           (MustPullFirst \<in> set (replies_of (handle_pass games m)))"
proof -
  have active: "exists_active games (Chat m)"
    using assms(1,2) by (simp add: exists_active_def)
  have skip: "(AlreadyActedThisTurn \<in> set (replies_of (handle_skip games m))) =
                HasPulledOnTurn game"
    using assms active by (simp add: handle_skip_def Let_def split: sum.splits)
  have pass: "(MustPullFirst \<in> set (replies_of (handle_pass games m))) =
                (\<not> HasPulledOnTurn game)"
    using assms active by (simp add: handle_pass_def Let_def split: sum.splits)
  have skip': "handle_skip games m = Sent games [AlreadyActedThisTurn]" if "HasPulledOnTurn game"
    using assms active that by (simp add: handle_skip_def)
  have pass': "handle_pass games m = Sent games [MustPullFirst]" if "\<not> HasPulledOnTurn game"
    using assms active that by (simp add: handle_pass_def)
  show ?thesis using skip pass skip' pass' by simp
qed

text \<open>
  C7 fails on the code: the flag does not always say whether the player on turn has
  pulled. Alice creates a game alone, skips, and pulls; the flag is set and the turn
  counter is 1. Bob joins: the roster has two players, so bob is on turn, and the flag
  is still set (the source comments the field as tracking whether the current player
  has pulled on their turn). Bob has not pulled, yet his \<^verbatim>\<open>/skip\<close> is refused with the
  already-pulled text and his \<^verbatim>\<open>/pass\<close> is accepted.
\<close>

theorem flag_outlives_join:
  "(Pull, bob) \<notin> set [(Create 3, alice), (Skip, alice), (Pull, alice), (Join, bob)] \<and>
   map_option (\<lambda>game. (Players game, CurrentPos game, PullCount game, HasPulledOnTurn game))
     (run Map.empty [(Create 3, alice), (Skip, alice), (Pull, alice), (Join, bob)] 1) =
     Some ([''alice'', ''Bob''], 1, 1, True) \<and>
   map_option currentPlayer
     (run Map.empty [(Create 3, alice), (Skip, alice), (Pull, alice), (Join, bob)] 1) =
     Some (Inr (getPlayerID (Sender bob))) \<and>
   replies_of (handle_skip
     (run Map.empty [(Create 3, alice), (Skip, alice), (Pull, alice), (Join, bob)]) bob) =
     [AlreadyActedThisTurn] \<and>
   replies_of (handle_pass
     (run Map.empty [(Create 3, alice), (Skip, alice), (Pull, alice), (Join, bob)]) bob) =
     [Passed ''Bob'' ''alice'']"
  by (simp add: handler_defs sender_defs)

text \<open>
  C8. For the player on turn who has not pulled: with no skip left the handler sends
  the no-skips text and changes nothing; otherwise the player's allowance drops by
  exactly 1 and is not negative afterwards, \<^verbatim>\<open>CurrentPos\<close> grows by exactly 1,
  \<^verbatim>\<open>HasPulledOnTurn\<close> is false, and \<^verbatim>\<open>PullCount\<close>, \<^verbatim>\<open>Bullet\<close>, the roster and every other
  player's allowance are unchanged; the text names the skipper, the allowance left and
  the next player.
\<close>

theorem skip_effect:
  assumes "games (Chat m) = Some game" and "IsActive game"
    and "currentPlayer game = Inr (getPlayerID (Sender m))"
    and "\<not> HasPulledOnTurn game"
  shows "(skips_at (Skips game) (getPlayerID (Sender m)) \<le> 0 \<longrightarrow>
            handle_skip games m = Sent games [NoSkipsLeft]) \<and>
         (0 < skips_at (Skips game) (getPlayerID (Sender m)) \<longrightarrow>
            (\<exists>game'.
               registry_of (handle_skip games m) = games(Chat m \<mapsto> game') \<and>
               skips_at (Skips game') (getPlayerID (Sender m)) =
                 skips_at (Skips game) (getPlayerID (Sender m)) - 1 \<and>
               0 \<le> skips_at (Skips game') (getPlayerID (Sender m)) \<and>
               (\<forall>p. p \<noteq> getPlayerID (Sender m) \<longrightarrow>
                  skips_at (Skips game') p = skips_at (Skips game) p) \<and>
               CurrentPos game' = CurrentPos game + 1 \<and> \<not> HasPulledOnTurn game' \<and>
               PullCount game' = PullCount game \<and> Bullet game' = Bullet game \<and>
               Players game' = Players game \<and> IsActive game' \<and>
               (\<forall>q. currentPlayer game' = Inr q \<longrightarrow>
                  handle_skip games m =
                    Sent (games(Chat m \<mapsto> game'))
                      [Skipped (getPlayerID (Sender m))
                         (skips_at (Skips game') (getPlayerID (Sender m))) q])))"
proof (intro conjI impI)
  let ?p = "getPlayerID (Sender m)"
  have active: "exists_active games (Chat m)"
    using assms(1,2) by (simp add: exists_active_def)
  {
    assume "skips_at (Skips game) ?p \<le> 0"
    then show "handle_skip games m = Sent games [NoSkipsLeft]"
      using assms active by (simp add: handle_skip_def)
  next
    let ?game' = "game\<lparr>Skips := (Skips game)(?p \<mapsto> skips_at (Skips game) ?p - 1),
                        CurrentPos := CurrentPos game + 1, HasPulledOnTurn := False\<rparr>"
    assume pos: "0 < skips_at (Skips game) ?p"
    have reg: "registry_of (handle_skip games m) = games(Chat m \<mapsto> ?game')"
      using assms active pos by (simp add: handle_skip_def Let_def split: sum.splits)
    have sent: "\<forall>q. currentPlayer ?game' = Inr q \<longrightarrow>
                  handle_skip games m =
                    Sent (games(Chat m \<mapsto> ?game')) [Skipped ?p (skips_at (Skips ?game') ?p) q]"
      using assms active pos by (simp add: handle_skip_def Let_def)
    have dec: "skips_at (Skips ?game') ?p = skips_at (Skips game) ?p - 1"
      by (simp add: skips_at_def)
    have others: "\<forall>p. p \<noteq> ?p \<longrightarrow> skips_at (Skips ?game') p = skips_at (Skips game) p"
      by (simp add: skips_at_def)
    show "\<exists>game'.
               registry_of (handle_skip games m) = games(Chat m \<mapsto> game') \<and>
               skips_at (Skips game') ?p = skips_at (Skips game) ?p - 1 \<and>
               0 \<le> skips_at (Skips game') ?p \<and>
               (\<forall>p. p \<noteq> ?p \<longrightarrow> skips_at (Skips game') p = skips_at (Skips game) p) \<and>
               CurrentPos game' = CurrentPos game + 1 \<and> \<not> HasPulledOnTurn game' \<and>
               PullCount game' = PullCount game \<and> Bullet game' = Bullet game \<and>
               Players game' = Players game \<and> IsActive game' \<and>
               (\<forall>q. currentPlayer game' = Inr q \<longrightarrow>
                  handle_skip games m =
                    Sent (games(Chat m \<mapsto> game'))
                      [Skipped ?p (skips_at (Skips game') ?p) q])"
      using reg sent dec others pos assms(2)
      by (intro exI [of _ ?game']) simp
  }
qed

theorem skip_effect_witness:
  "[1 \<mapsto> spentgame] (Chat alice) = Some spentgame \<and> IsActive spentgame \<and>
   currentPlayer spentgame = Inr (getPlayerID (Sender alice)) \<and>
   \<not> HasPulledOnTurn spentgame \<and>
   skips_at (Skips spentgame) (getPlayerID (Sender alice)) \<le> 0 \<and>
   handle_skip [1 \<mapsto> spentgame] alice = Sent [1 \<mapsto> spentgame] [NoSkipsLeft] \<and>
   [1 \<mapsto> newgame] (Chat alice) = Some newgame \<and> IsActive newgame \<and>
   currentPlayer newgame = Inr (getPlayerID (Sender alice)) \<and> \<not> HasPulledOnTurn newgame \<and>
   0 < skips_at (Skips newgame) (getPlayerID (Sender alice)) \<and>
   map_option (\<lambda>game. (skips_at (Skips game) ''alice'', CurrentPos game, PullCount game,
       Bullet game, Players game))
     (registry_of (handle_skip [1 \<mapsto> newgame] alice) 1) = Some (1, 1, 0, 3, [''alice''])"
proof -
  have s1: "[1 \<mapsto> spentgame] (Chat alice) = Some spentgame" by (simp add: alice_def)
  have s2: "IsActive spentgame" and s3: "\<not> HasPulledOnTurn spentgame"
    by (simp_all add: spentgame_def)
  have s4: "skips_at (Skips spentgame) (getPlayerID (Sender alice)) \<le> 0"
    by (simp add: spentgame_def alice_def getPlayerID_def skips_at_def)
  have n1: "[1 \<mapsto> newgame] (Chat alice) = Some newgame" by (simp add: alice_def)
  have n2: "IsActive newgame" and n3: "\<not> HasPulledOnTurn newgame"
    by (simp_all add: newgame_def)
  have n4: "0 < skips_at (Skips newgame) (getPlayerID (Sender alice))"
    by (simp add: newgame_def alice_def getPlayerID_def skips_at_def)
  from skip_effect [of "[1 \<mapsto> spentgame]" alice spentgame, OF s1 s2 spentgame_current s3] s4
  have a: "handle_skip [1 \<mapsto> spentgame] alice = Sent [1 \<mapsto> spentgame] [NoSkipsLeft]"
    by blast
  from skip_effect [of "[1 \<mapsto> newgame]" alice newgame, OF n1 n2 newgame_current n3] n4
  obtain game' where
    "registry_of (handle_skip [1 \<mapsto> newgame] alice) = [1 \<mapsto> newgame](Chat alice \<mapsto> game')"
    and "skips_at (Skips game') (getPlayerID (Sender alice)) =
           skips_at (Skips newgame) (getPlayerID (Sender alice)) - 1"
    and "CurrentPos game' = CurrentPos newgame + 1"
    and "PullCount game' = PullCount newgame" and "Bullet game' = Bullet newgame"
    and "Players game' = Players newgame"
    by blast
  then have b: "map_option (\<lambda>game. (skips_at (Skips game) ''alice'', CurrentPos game,
       PullCount game, Bullet game, Players game))
     (registry_of (handle_skip [1 \<mapsto> newgame] alice) 1) = Some (1, 1, 0, 3, [''alice''])"
    by (simp add: alice_def newgame_def getPlayerID_def skips_at_def)
  show ?thesis
    using s1 s2 s3 s4 n1 n2 n3 n4 spentgame_current newgame_current a b by simp
qed

section \<open>The older versions store nil\<close>

text \<open>
  In the first and the second version a stopped or finished game is overwritten with
  nil; from then on every command of that chat except \<^verbatim>\<open>/help\<close> panics in its guard.
  The last version deletes the key instead.
\<close>

lemma nil_entry_panics_v1:
  assumes "games (Chat m) = Some None" and "cmd \<noteq> Help_v1"
  shows "handle_v1 games cmd m = Panic NilDereference games []"
  using assms by (cases cmd) (simp_all add: handler_v1_defs)

lemma nil_entry_panics_v2:
  assumes "games (Chat m) = Some None" and "cmd \<noteq> Help_v2"
  shows "handle_v2 games cmd m = Panic NilDereference games []"
  using assms by (cases cmd) (simp_all add: handler_v2_defs)

lemma stopgame_v1_stores_nil:
  assumes "games (Chat m) = Some (Some game)" and "IsActive_v1 game"
  shows "registry_of (handle_stopgame_v1 games m) (Chat m) = Some None"
  using assms by (simp add: handler_v1_defs)

lemma stop_v2_stores_nil:
  assumes "games (Chat m) = Some (Some game)" and "IsActive_v2 game"
  shows "registry_of (handle_stop_v2 games m) (Chat m) = Some None"
  using assms by (simp add: handler_v2_defs)

lemma stop_deletes: "registry_of (handle_stop games m) (Chat m) = None \<or>
    registry_of (handle_stop games m) = games"
  by (simp add: handle_stop_def)

text \<open>
  C10 fails on the first and on the second version: after \<^verbatim>\<open>/stopgame\<close> (or a fatal
  pull) the chat's key is bound to nil and the next \<^verbatim>\<open>/status\<close>, \<^verbatim>\<open>/startroulette\<close>,
  \<^verbatim>\<open>/join\<close> or \<^verbatim>\<open>/pull\<close> dereferences it. The same run on the last version leaves no
  entry and the next command is answered.
\<close>

theorem nil_entry_after_stop_panics:
  "run_v1 Map.empty [(Startroulette 3, alice), (Stopgame, alice)] (Chat alice) = Some None \<and>
   handle_v1 (run_v1 Map.empty [(Startroulette 3, alice), (Stopgame, alice)]) Status_v1 alice =
     Panic NilDereference [1 \<mapsto> None] [] \<and>
   handle_v1 (run_v1 Map.empty [(Startroulette 3, alice), (Stopgame, alice)])
     (Startroulette 4) alice = Panic NilDereference [1 \<mapsto> None] [] \<and>
   run_v1 Map.empty [(Startroulette 0, alice), (Pull_v1, alice)] (Chat alice) = Some None \<and>
   handle_v1 (run_v1 Map.empty [(Startroulette 0, alice), (Pull_v1, alice)]) Join_v1 bob =
     Panic NilDereference [1 \<mapsto> None] [] \<and>
   run_v2 Map.empty [(Create_v2 3, alice), (Stop_v2, alice)] (Chat alice) = Some None \<and>
   handle_v2 (run_v2 Map.empty [(Create_v2 3, alice), (Stop_v2, alice)]) Status_v2 alice =
     Panic NilDereference [1 \<mapsto> None] [] \<and>
   run_v2 Map.empty [(Create_v2 0, alice), (Pull_v2, alice)] (Chat alice) = Some None \<and>
   handle_v2 (run_v2 Map.empty [(Create_v2 0, alice), (Pull_v2, alice)]) Pull_v2 bob =
     Panic NilDereference [1 \<mapsto> None] [] \<and>
   run Map.empty [(Create 3, alice), (Stop, alice)] (Chat alice) = None \<and>
   handle (run Map.empty [(Create 3, alice), (Stop, alice)]) Status alice =
     Sent Map.empty [NoActiveGameStatus]"
  by (simp add: handler_v1_defs handler_v2_defs handler_defs sender_defs)

end
